theory Spec2Isabelle
  imports Complex_Main
begin

section \<open>Conventions\<close>

text \<open>
  The program is \<^verbatim>\<open>src/js/main.js\<close>. A JavaScript number is modelled as a mathematical
  real (counters that only ever hold whole numbers as \<open>int\<close> or \<open>nat\<close>): rounding, \<open>NaN\<close> and
  the infinities of IEEE doubles are outside the model. An optional property of a settings
  object is an \<open>option\<close>, and \<open>a ?? b\<close> is \<open>nullish a b\<close>. A \<open>TypeError\<close> the
  engine would raise (a property read or written on \<open>undefined\<close>) is the left injection
  of a sum.
\<close>

datatype error = TypeError

definition nullish :: "'a option \<Rightarrow> 'a \<Rightarrow> 'a" where
  "nullish v d = (case v of None \<Rightarrow> d | Some w \<Rightarrow> w)"

section \<open>Geometry factory\<close>

text \<open>
  A layout preset of \<^verbatim>\<open>settings.json\<close>; only the properties the geometry code reads.
  \<open>geometry\<close> is the preset's shape tag.
\<close>

record preset =
  geometry :: "string option"
  topScale :: "real option"
  bottomScale :: "real option"
  heightScale :: "real option"
  presetRadialSegments :: "real option"
  presetDomeHeightRatio :: "real option"
  presetDomeSegments :: "real option"
  bodyHeightRatio :: "real option"
  bodyTopScale :: "real option"
  bodyBottomScale :: "real option"
  tier1HeightRatio :: "real option"
  tier2HeightRatio :: "real option"
  tier1RadiusScale :: "real option"
  tier2RadiusScale :: "real option"
  tipRadiusScale :: "real option"
  ringScale :: "real option"
  ringThickness :: "real option"
  ringOffset :: "real option"

definition emptyPreset :: preset where
  "emptyPreset = \<lparr> geometry = None, topScale = None, bottomScale = None, heightScale = None,
     presetRadialSegments = None, presetDomeHeightRatio = None, presetDomeSegments = None,
     bodyHeightRatio = None, bodyTopScale = None, bodyBottomScale = None,
     tier1HeightRatio = None, tier2HeightRatio = None, tier1RadiusScale = None,
     tier2RadiusScale = None, tipRadiusScale = None, ringScale = None,
     ringThickness = None, ringOffset = None \<rparr>"

text \<open>
  The dimensions \<^verbatim>\<open>createDomedCylinderGeometry\<close> computes before it hands them to the
  mesh constructors: the open cylinder of height \<open>cylinderHeight\<close> and the sphere cap with
  polar angle \<open>theta\<close> on a sphere of radius \<open>sphereRadius\<close>, whose rim lies \<open>rimY\<close> above
  the sphere's centre. The segment counts of the meshes (\<open>radialSegments\<close>,
  \<open>domeSegments\<close>) set their resolution only and are left out where no dimension depends
  on them.
\<close>

record domed =
  dc_topRadius :: real
  dc_bottomRadius :: real
  dc_ratio :: real
  dc_domeHeight :: real
  dc_cylinderHeight :: real
  dc_theta :: real
  dc_sphereRadius :: real
  dc_rimY :: real

definition createDomedCylinderGeometry ::
  "real \<Rightarrow> real \<Rightarrow> real \<Rightarrow> real \<Rightarrow> domed" where
  "createDomedCylinderGeometry topRadius bottomRadius height domeHeightRatio =
    (let ratio = max 0.08 (min domeHeightRatio 0.7);
         domeHeight = min (topRadius * ratio) (height * 0.45);
         cylinderHeight = max 0.001 (height - domeHeight);
         theta = 2 * arctan (domeHeight / topRadius);
         sphereRadius = topRadius / sin theta;
         rimY = sphereRadius * cos theta
     in \<lparr> dc_topRadius = topRadius, dc_bottomRadius = bottomRadius, dc_ratio = ratio,
          dc_domeHeight = domeHeight, dc_cylinderHeight = cylinderHeight,
          dc_theta = theta, dc_sphereRadius = sphereRadius, dc_rimY = rimY \<rparr>)"

record crystal =
  cr_segs :: int
  cr_bodyRatio :: real
  cr_bodyHeight :: real
  cr_tipHeight :: real
  cr_bodyTop :: real
  cr_bodyBottom :: real
  cr_tipRadius :: real
  cr_bodyCenterY :: real
  cr_tipCenterY :: real

definition createCrystalHotspotGeometry ::
  "real \<Rightarrow> real \<Rightarrow> real \<Rightarrow> preset \<Rightarrow> crystal" where
  "createCrystalHotspotGeometry radius height radialSegments p =
    (let segs = max 3 \<lfloor>radialSegments\<rfloor>;
         bodyRatio = max 0.35 (min 0.82 (nullish (bodyHeightRatio p) 0.64));
         bodyHeight = max 0.04 (height * bodyRatio);
         tipHeight = max 0.04 (height - bodyHeight);
         bodyTop = max 0.01 (radius * nullish (bodyTopScale p) 0.42);
         bodyBottom = max 0.01 (radius * nullish (bodyBottomScale p) 1.0);
         bodyCenterY = - height / 2 + bodyHeight / 2;
         tipCenterY = bodyCenterY + bodyHeight / 2 + tipHeight / 2
     in \<lparr> cr_segs = segs, cr_bodyRatio = bodyRatio, cr_bodyHeight = bodyHeight,
          cr_tipHeight = tipHeight, cr_bodyTop = bodyTop, cr_bodyBottom = bodyBottom,
          cr_tipRadius = max 0.01 (bodyTop * 1.14),
          cr_bodyCenterY = bodyCenterY, cr_tipCenterY = tipCenterY \<rparr>)"

record orbital =
  ob_core :: domed
  ob_majorRadius :: real
  ob_tubeRadius :: real
  ob_ringY :: real

definition createOrbitalHotspotGeometry ::
  "real \<Rightarrow> real \<Rightarrow> real \<Rightarrow> real \<Rightarrow> preset \<Rightarrow> orbital" where
  "createOrbitalHotspotGeometry topRadius bottomRadius height domeHeightRatio p =
    (let core = createDomedCylinderGeometry topRadius bottomRadius height domeHeightRatio;
         majorRadius = max topRadius bottomRadius * nullish (ringScale p) 1.25;
         tubeRadius = max 0.008 (majorRadius * nullish (ringThickness p) 0.14)
     in \<lparr> ob_core = core, ob_majorRadius = majorRadius, ob_tubeRadius = tubeRadius,
          ob_ringY = height * nullish (ringOffset p) 0.08 \<rparr>)"

record beacon =
  bc_segs :: int
  bc_tier1Ratio :: real
  bc_tier2Ratio :: real
  bc_tier1Height :: real
  bc_tier2Height :: real
  bc_tipHeight :: real
  bc_tier1Radius :: real
  bc_tier2Radius :: real
  bc_tipRadius :: real
  bc_tier1CenterY :: real
  bc_tier2CenterY :: real
  bc_tipCenterY :: real

definition createBeaconHotspotGeometry ::
  "real \<Rightarrow> real \<Rightarrow> real \<Rightarrow> preset \<Rightarrow> beacon" where
  "createBeaconHotspotGeometry radius height radialSegments p =
    (let segs = max 4 \<lfloor>radialSegments\<rfloor>;
         tier1Ratio = max 0.2 (min 0.7 (nullish (tier1HeightRatio p) 0.44));
         tier2Ratio = max 0.15 (min 0.55 (nullish (tier2HeightRatio p) 0.33));
         tier1Height = max 0.04 (height * tier1Ratio);
         tier2Height = max 0.04 (height * tier2Ratio);
         tipHeight = max 0.04 (height - tier1Height - tier2Height);
         tier1Radius = max 0.01 (radius * nullish (tier1RadiusScale p) 1.0);
         tier2Radius = max 0.01 (radius * nullish (tier2RadiusScale p) 0.68);
         tipRadius = max 0.01 (radius * nullish (tipRadiusScale p) 0.34);
         tier1CenterY = - height / 2 + tier1Height / 2;
         tier2CenterY = tier1CenterY + tier1Height / 2 + tier2Height / 2;
         tipCenterY = tier2CenterY + tier2Height / 2 + tipHeight / 2
     in \<lparr> bc_segs = segs, bc_tier1Ratio = tier1Ratio, bc_tier2Ratio = tier2Ratio,
          bc_tier1Height = tier1Height, bc_tier2Height = tier2Height,
          bc_tipHeight = tipHeight, bc_tier1Radius = tier1Radius,
          bc_tier2Radius = tier2Radius, bc_tipRadius = tipRadius,
          bc_tier1CenterY = tier1CenterY, bc_tier2CenterY = tier2CenterY,
          bc_tipCenterY = tipCenterY \<rparr>)"

text \<open>
  The settings \<^verbatim>\<open>buildHotspotGeometryFromLayout\<close> reads:
  \<^verbatim>\<open>CONFIG.dots.{radius,height}\<close>, \<^verbatim>\<open>CONFIG.hotspots.{radiusMultiplier,heightMultiplier,
  radialSegments,dome.heightRatio,dome.segments}\<close> and \<^verbatim>\<open>CONFIG.hotspots.layout\<close>.
\<close>

record layoutConfig =
  dots_radius :: real
  dots_height :: real
  radiusMultiplier :: real
  heightMultiplier :: real
  hotspots_radialSegments :: real
  dome_heightRatio :: real
  dome_segments :: real
  layout_active :: "string option"
  layout_presets :: "string \<Rightarrow> preset option"

definition getActiveHotspotLayoutPreset :: "layoutConfig \<Rightarrow> preset" where
  "getActiveHotspotLayoutPreset cfg =
    (let presets = layout_presets cfg;
         activeName = nullish (layout_active cfg) ''classic'';
         fallback = nullish (presets ''classic'') emptyPreset
     in nullish (presets activeName) fallback)"

datatype solid =
  DomedCylinder domed
  | Crystal crystal
  | Orbital orbital
  | Beacon beacon

text \<open>
  \<^verbatim>\<open>buildHotspotGeometryFromLayout\<close> returns the solid together with the marker height it
  asked for (\<open>hotspotHeight\<close>, never under the floor \<open>0.08\<close>).
\<close>

definition buildHotspotGeometryFromLayout :: "layoutConfig \<Rightarrow> solid \<times> real" where
  "buildHotspotGeometryFromLayout cfg =
    (let p = getActiveHotspotLayoutPreset cfg;
         baseRadius = dots_radius cfg * radiusMultiplier cfg;
         baseHeight = dots_height cfg * heightMultiplier cfg;
         topRadius = max 0.02 (baseRadius * nullish (topScale p) 1);
         bottomRadius = max 0.02 (baseRadius * nullish (bottomScale p) 1);
         hotspotHeight = max 0.08 (baseHeight * nullish (heightScale p) 1);
         radialSegments =
           max 4 (of_int \<lfloor>nullish (presetRadialSegments p) (hotspots_radialSegments cfg)\<rfloor>);
         domeHeightRatio = nullish (presetDomeHeightRatio p) (dome_heightRatio cfg)
     in (if geometry p = Some ''crystal'' then
           Crystal (createCrystalHotspotGeometry (max topRadius bottomRadius)
                      hotspotHeight radialSegments p)
         else if geometry p = Some ''orbital'' then
           Orbital (createOrbitalHotspotGeometry topRadius bottomRadius hotspotHeight
                      domeHeightRatio p)
         else if geometry p = Some ''beacon'' then
           Beacon (createBeaconHotspotGeometry (max topRadius bottomRadius)
                     hotspotHeight radialSegments p)
         else
           DomedCylinder (createDomedCylinderGeometry topRadius bottomRadius hotspotHeight
                            domeHeightRatio),
         hotspotHeight))"

text \<open>
  The assembled height of a solid: the sum of the heights of the parts it stacks. The
  orbital's ring encircles its domed core and adds nothing to the stack.
\<close>

definition domedHeight :: "domed \<Rightarrow> real" where
  "domedHeight d = dc_cylinderHeight d + dc_domeHeight d"

fun assembledHeight :: "solid \<Rightarrow> real" where
  "assembledHeight (DomedCylinder d) = domedHeight d"
| "assembledHeight (Crystal c) = cr_bodyHeight c + cr_tipHeight c"
| "assembledHeight (Orbital ob) = domedHeight (ob_core ob)"
| "assembledHeight (Beacon b) = bc_tier1Height b + bc_tier2Height b + bc_tipHeight b"

section \<open>Settings and scene state\<close>

text \<open>
  \<^verbatim>\<open>CONFIG.hotspots.connectionLine\<close>, the base style of every connection line. Every path
  modelled here reads it only behind a test of \<open>enabled\<close>, so a missing object behaves as
  one with \<open>enabled = False\<close>.
\<close>

record lineCfg =
  enabled :: bool
  drawSequential :: "bool option"
  line_thickness :: real
  line_segments :: real
  line_arcHeight :: real
  line_color :: nat
  line_opacity :: real
  line_heightOffset :: real
  line_radialSegments :: real

text \<open>An entry of \<^verbatim>\<open>CONFIG.hotspots.connectionPairs\<close>: two ids and optional style overrides.\<close>

record connectionPair =
  fromId :: "string option"
  toId :: "string option"
  pair_color :: "nat option"
  pair_opacity :: "real option"
  pair_arcHeight :: "real option"
  pair_segments :: "real option"
  pair_thickness :: "real option"
  pair_radialSegments :: "real option"
  pair_heightOffset :: "real option"

text \<open>
  The settings the dot field, the hover engine and the line builders read. \<open>SPACING\<close> is
  \<^verbatim>\<open>CONFIG.dots.spacing\<close>, \<open>MAP_OFFSET_X\<close> and \<open>DOT_BASE_Y\<close> are \<^verbatim>\<open>CONFIG.map.offsetX\<close> and
  \<^verbatim>\<open>CONFIG.map.offsetY\<close>, \<open>DOT_HEIGHT\<close> is \<^verbatim>\<open>CONFIG.dots.height\<close>, \<open>idlePhaseStep\<close> is
  \<^verbatim>\<open>CONFIG.hotspots.effects.idle.phaseStep ?? 0.55\<close>.
\<close>

record config =
  SPACING :: real
  MAP_OFFSET_X :: real
  DOT_BASE_Y :: real
  DOT_HEIGHT :: real
  idlePhaseStep :: real
  hover_radius :: real
  hover_maxLift :: real
  hover_easing :: real
  hover_threshold :: real
  hoverCooldownFrames :: int
  hoverFalloff :: real
  connectionLine :: lineCfg
  connectionPairs :: "connectionPair list"
  layout :: layoutConfig

type_synonym vec3 = "real \<times> real \<times> real"

record dot =
  dot_x :: real
  dot_y :: real
  lift :: real
  targetLift :: real
  isHotspot :: bool
  hotspotIndex :: int

text \<open>
  A hotspot as loaded (\<^verbatim>\<open>HOTSPOTS\<close>; label and message are not modelled) and as bound
  (\<^verbatim>\<open>hotspotData\<close>, the loaded record spread into a larger one).
\<close>

record hotspot =
  hs_id :: string
  hs_type :: string
  lat :: real
  lon :: real

record hotspotRec = hotspot +
  dotIndex :: nat
  meshType :: string
  meshInstanceId :: nat
  hs_height :: real
  idleLift :: real
  animationPhase :: real

text \<open>
  A tube mesh as \<^verbatim>\<open>buildArcTubeGeometry\<close> and the material constructor are called: the
  sampled points the curve interpolates and the tube's parameters.
\<close>

record lineMesh =
  tube_points :: "vec3 list"
  tubularSegments :: nat
  tube_radius :: real
  tube_radialSegments :: int
  mat_color :: nat
  mat_transparent :: bool
  mat_opacity :: real

record pairLine =
  pl_mesh :: lineMesh
  pl_fromIndex :: nat
  pl_toIndex :: nat
  pl_cfg :: lineCfg

text \<open>
  The module's mutable globals. \<open>meshesBuilt\<close> says that \<^verbatim>\<open>dotMesh\<close> and \<^verbatim>\<open>hoverProxyMesh\<close>
  exist (both are created, one after the other, at the start of \<^verbatim>\<open>buildDotsFromFile\<close>).
  \<open>instanceMatrix\<close> holds the translation of each dot instance: the code always writes the
  same matrix at the same index of \<^verbatim>\<open>dotMesh\<close> and of \<^verbatim>\<open>hoverProxyMesh\<close>, so one list stands
  for both. Writing an instance past the end of the buffer changes nothing, as
  \<open>xs[i := v]\<close> does.
\<close>

record state =
  meshesBuilt :: bool
  dotPositions :: "dot list"
  instanceMatrix :: "vec3 list"
  hotspotData :: "hotspotRec list"
  hotspotLine :: "lineMesh option"
  hotspotPairLines :: "pairLine list"
  hoveredInstanceId :: "nat option"
  hoverCooldown :: int
  liftActive :: bool

definition initialState :: state where
  "initialState = \<lparr> meshesBuilt = False, dotPositions = [], instanceMatrix = [],
     hotspotData = [], hotspotLine = None, hotspotPairLines = [],
     hoveredInstanceId = None, hoverCooldown = 0, liftActive = False \<rparr>"

definition getCylinderCenterY :: "config \<Rightarrow> real \<Rightarrow> real \<Rightarrow> real" where
  "getCylinderCenterY c h l = DOT_BASE_Y c + h / 2 + l"

definition getMapWorldX :: "config \<Rightarrow> real \<Rightarrow> real" where
  "getMapWorldX c x = x * SPACING c + MAP_OFFSET_X c"

definition latLonToMapXY :: "real \<Rightarrow> real \<Rightarrow> real \<times> real" where
  "latLonToMapXY la lo = ((lo / 180) * (20 / 2), (la / 90) * (10 / 2))"

section \<open>Connection arcs\<close>

text \<open>
  \<^verbatim>\<open>getHotspotWorldPosition\<close>: reading \<open>p.x\<close> of a dot that does not exist raises. The
  vertical offset is always the base style's \<open>heightOffset\<close>.
\<close>

definition getHotspotWorldPosition :: "config \<Rightarrow> dot list \<Rightarrow> hotspotRec \<Rightarrow> error + vec3" where
  "getHotspotWorldPosition c ds hs =
    (if dotIndex hs < length ds then
       (let p = ds ! dotIndex hs in
        Inr (getMapWorldX c (dot_x p),
             getCylinderCenterY c (hs_height hs) (lift p + idleLift hs)
               + line_heightOffset (connectionLine c),
             - dot_y p * SPACING c))
     else Inl TypeError)"

text \<open>The point pushed for sample index \<open>s\<close> of a leg from \<open>a\<close> to \<open>b\<close>.\<close>

definition arcPoint :: "vec3 \<Rightarrow> vec3 \<Rightarrow> real \<Rightarrow> nat \<Rightarrow> nat \<Rightarrow> vec3" where
  "arcPoint a b arcHeight segments s =
    (case a of (ax, ay, az) \<Rightarrow> case b of (bx, by, bz) \<Rightarrow>
      (let t = real s / real segments; oneMinus = 1 - t
       in (ax * oneMinus + bx * t,
           ay * oneMinus + by * t + sin (pi * t) * arcHeight,
           az * oneMinus + bz * t)))"

definition segmentsOf :: "lineCfg \<Rightarrow> nat" where
  "segmentsOf lc = nat (max 1 \<lfloor>line_segments lc\<rfloor>)"

definition collectArcPointsBetween :: "vec3 \<Rightarrow> vec3 \<Rightarrow> lineCfg \<Rightarrow> vec3 list" where
  "collectArcPointsBetween a b lc =
    (let segments = segmentsOf lc
     in map (arcPoint a b (line_arcHeight lc) segments) [0 ..< Suc segments])"

text \<open>
  The sample indices of leg \<open>i\<close> of the sequential chain (the inner loop's \<open>s\<close>), and the
  outer loop of \<^verbatim>\<open>collectHotspotArcPoints\<close> over the legs \<open>i, i + 1, ...\<close> of the hotspots
  that remain.
\<close>

definition legSamples :: "nat \<Rightarrow> nat \<Rightarrow> nat list" where
  "legSamples i segments = [(if i = 0 then 0 else 1) ..< Suc segments]"

fun collectLegs :: "config \<Rightarrow> dot list \<Rightarrow> nat \<Rightarrow> hotspotRec list \<Rightarrow> error + vec3 list" where
  "collectLegs c ds i (h1 # h2 # rest) =
    (case getHotspotWorldPosition c ds h1 of
       Inl e \<Rightarrow> Inl e
     | Inr a \<Rightarrow>
        (case getHotspotWorldPosition c ds h2 of
           Inl e \<Rightarrow> Inl e
         | Inr b \<Rightarrow>
            (case collectLegs c ds (Suc i) (h2 # rest) of
               Inl e \<Rightarrow> Inl e
             | Inr ps \<Rightarrow>
                 Inr (map (arcPoint a b (line_arcHeight (connectionLine c))
                             (segmentsOf (connectionLine c)))
                        (legSamples i (segmentsOf (connectionLine c))) @ ps))))"
| "collectLegs c ds i hs = Inr []"

definition collectHotspotArcPoints :: "config \<Rightarrow> state \<Rightarrow> error + vec3 list" where
  "collectHotspotArcPoints c s = collectLegs c (dotPositions s) 0 (hotspotData s)"

definition buildArcTube :: "vec3 list \<Rightarrow> lineCfg \<Rightarrow> lineMesh" where
  "buildArcTube points lc =
    \<lparr> tube_points = points,
      tubularSegments = max 2 (length points * 2),
      tube_radius = max 0.001 (line_thickness lc),
      tube_radialSegments = max 3 \<lfloor>line_radialSegments lc\<rfloor>,
      mat_color = line_color lc,
      mat_transparent = (line_opacity lc < 1),
      mat_opacity = line_opacity lc \<rparr>"

definition isSequentialConnectionEnabled :: "config \<Rightarrow> bool" where
  "isSequentialConnectionEnabled c =
    (enabled (connectionLine c) \<and> nullish (drawSequential (connectionLine c)) False)"

definition buildHotspotConnectionLine :: "config \<Rightarrow> state \<Rightarrow> error + state" where
  "buildHotspotConnectionLine c s =
    (if \<not> isSequentialConnectionEnabled c \<or> length (hotspotData s) < 2 then
       Inr (s\<lparr>hotspotLine := None\<rparr>)
     else
       (case collectHotspotArcPoints c (s\<lparr>hotspotLine := None\<rparr>) of
          Inl e \<Rightarrow> Inl e
        | Inr points \<Rightarrow>
            if length points < 2 then Inr (s\<lparr>hotspotLine := None\<rparr>)
            else Inr (s\<lparr>hotspotLine := Some (buildArcTube points (connectionLine c))\<rparr>)))"

text \<open>
  \<^verbatim>\<open>String(id).toLowerCase()\<close> on the ASCII letters (ids are byte strings here), and
  \<^verbatim>\<open>Array.prototype.findIndex\<close>.
\<close>

definition toLowerChar :: "char \<Rightarrow> char" where
  "toLowerChar ch =
    (let n = (of_char ch :: nat) in if 65 \<le> n \<and> n \<le> 90 then char_of (n + 32) else ch)"

definition toLowerCase :: "string \<Rightarrow> string" where
  "toLowerCase str = map toLowerChar str"

fun findIndexFrom :: "('a \<Rightarrow> bool) \<Rightarrow> nat \<Rightarrow> 'a list \<Rightarrow> int" where
  "findIndexFrom P i [] = - 1"
| "findIndexFrom P i (v # vs) = (if P v then int i else findIndexFrom P (Suc i) vs)"

text \<open>\<open>!id\<close> holds for a missing id and for the empty string.\<close>

definition findHotspotIndexById :: "hotspotRec list \<Rightarrow> string option \<Rightarrow> int" where
  "findHotspotIndexById hsd ident =
    (case ident of
       None \<Rightarrow> - 1
     | Some i \<Rightarrow>
        if i = [] then - 1
        else (let needle = toLowerCase i
              in findIndexFrom (\<lambda>hs. toLowerCase (hs_id hs) = needle) 0 hsd))"

text \<open>The style object a pair's line is built with: the base style, overridden per key.\<close>

definition mergePairCfg :: "lineCfg \<Rightarrow> connectionPair \<Rightarrow> lineCfg" where
  "mergePairCfg baseCfg pair =
    baseCfg\<lparr> line_color := nullish (pair_color pair) (line_color baseCfg),
             line_opacity := nullish (pair_opacity pair) (line_opacity baseCfg),
             line_arcHeight := nullish (pair_arcHeight pair) (line_arcHeight baseCfg),
             line_segments := nullish (pair_segments pair) (line_segments baseCfg),
             line_thickness := nullish (pair_thickness pair) (line_thickness baseCfg),
             line_radialSegments :=
               nullish (pair_radialSegments pair) (line_radialSegments baseCfg),
             line_heightOffset :=
               nullish (pair_heightOffset pair) (line_heightOffset baseCfg) \<rparr>"

text \<open>
  The body of \<^verbatim>\<open>pairs.forEach\<close> in \<^verbatim>\<open>buildHotspotPairConnections\<close>: \<open>None\<close> when the pair is
  dropped (the callback returns early), otherwise the entry pushed.
\<close>

definition buildPair :: "config \<Rightarrow> state \<Rightarrow> connectionPair \<Rightarrow> error + pairLine option" where
  "buildPair c s pair =
    (let fromIdx = findHotspotIndexById (hotspotData s) (fromId pair);
         toIdx = findHotspotIndexById (hotspotData s) (toId pair)
     in if fromIdx < 0 \<or> toIdx < 0 then Inr None
        else
          (let pcfg = mergePairCfg (connectionLine c) pair
           in case getHotspotWorldPosition c (dotPositions s) (hotspotData s ! nat fromIdx) of
                Inl e \<Rightarrow> Inl e
              | Inr a \<Rightarrow>
                 (case getHotspotWorldPosition c (dotPositions s) (hotspotData s ! nat toIdx) of
                    Inl e \<Rightarrow> Inl e
                  | Inr b \<Rightarrow>
                      Inr (Some \<lparr> pl_mesh = buildArcTube (collectArcPointsBetween a b pcfg) pcfg,
                                  pl_fromIndex = nat fromIdx, pl_toIndex = nat toIdx,
                                  pl_cfg = pcfg \<rparr>))))"

fun buildPairs :: "config \<Rightarrow> state \<Rightarrow> connectionPair list \<Rightarrow> pairLine list \<Rightarrow> error + pairLine list" where
  "buildPairs c s [] acc = Inr acc"
| "buildPairs c s (pair # pairs) acc =
    (case buildPair c s pair of
       Inl e \<Rightarrow> Inl e
     | Inr None \<Rightarrow> buildPairs c s pairs acc
     | Inr (Some entry) \<Rightarrow> buildPairs c s pairs (acc @ [entry]))"

definition buildHotspotPairConnections :: "config \<Rightarrow> state \<Rightarrow> error + state" where
  "buildHotspotPairConnections c s =
    (if \<not> enabled (connectionLine c) then Inr (s\<lparr>hotspotPairLines := []\<rparr>)
     else if connectionPairs c = [] then Inr (s\<lparr>hotspotPairLines := []\<rparr>)
     else
       (case buildPairs c s (connectionPairs c) [] of
          Inl e \<Rightarrow> Inl e
        | Inr entries \<Rightarrow> Inr (s\<lparr>hotspotPairLines := entries\<rparr>)))"

section \<open>Dot field and nearest-dot binding\<close>

definition makeDot :: "real \<times> real \<Rightarrow> dot" where
  "makeDot xy = \<lparr> dot_x = fst xy, dot_y = snd xy, lift = 0, targetLift = 0,
                  isHotspot = False, hotspotIndex = - 1 \<rparr>"

text \<open>The translation written for dot \<open>p\<close> standing at lift \<open>l\<close>.\<close>

definition dotMatrixAt :: "config \<Rightarrow> dot \<Rightarrow> real \<Rightarrow> vec3" where
  "dotMatrixAt c p l =
    (getMapWorldX c (dot_x p), getCylinderCenterY c (DOT_HEIGHT c) l, - dot_y p * SPACING c)"

text \<open>
  The first part of \<^verbatim>\<open>buildDotsFromFile\<close>: both instanced meshes are created with one
  instance per point and \<open>dotPositions[i]\<close> is assigned for every point of the file.
\<close>

definition createDots :: "config \<Rightarrow> (real \<times> real) list \<Rightarrow> state \<Rightarrow> state" where
  "createDots c dots s =
    s\<lparr> meshesBuilt := True,
       dotPositions := map makeDot dots @ drop (length dots) (dotPositions s),
       instanceMatrix := map (\<lambda>xy. dotMatrixAt c (makeDot xy) 0) dots \<rparr>"

text \<open>
  The brute-force scan for the dot nearest to \<open>(x, y)\<close>. \<open>bestDist\<close> starts at
  \<open>Infinity\<close>, here \<open>None\<close>; \<open>bestIndex\<close> starts at \<open>-1\<close>.
\<close>

fun nearestFrom ::
  "real \<Rightarrow> real \<Rightarrow> nat \<Rightarrow> dot list \<Rightarrow> int \<times> real option \<Rightarrow> int \<times> real option" where
  "nearestFrom x y idx [] best = best"
| "nearestFrom x y idx (p # ps) (bestIndex, bestDist) =
    (let dx = dot_x p - x; dy = dot_y p - y; d = dx * dx + dy * dy
     in if (case bestDist of None \<Rightarrow> True | Some bd \<Rightarrow> d < bd)
        then nearestFrom x y (Suc idx) ps (int idx, Some d)
        else nearestFrom x y (Suc idx) ps (bestIndex, bestDist))"

text \<open>
  The body of \<^verbatim>\<open>list.forEach((hs, i) => ...)\<close>: hotspot \<open>hs\<close>, the \<open>i\<close>-th of its type
  group. Writing \<open>isHotspot\<close> on \<open>dotPositions[bestIndex]\<close> raises when that dot does not
  exist, which is the case for \<open>bestIndex = -1\<close>.
\<close>

definition bindHotspot ::
  "config \<Rightarrow> string \<Rightarrow> real \<Rightarrow> nat \<Rightarrow> hotspot \<Rightarrow> state \<Rightarrow> error + state" where
  "bindHotspot c type hotspotHeight i hs s =
    (case latLonToMapXY (lat hs) (lon hs) of (x, y) \<Rightarrow>
      (let bestIndex = fst (nearestFrom x y 0 (dotPositions s) (- 1, None))
       in if bestIndex < 0 \<or> length (dotPositions s) \<le> nat bestIndex then Inl TypeError
          else
            (let b = nat bestIndex;
                 ds = dotPositions s;
                 ds' = ds[b := (ds ! b)\<lparr> isHotspot := True,
                                          hotspotIndex := int (length (hotspotData s)) \<rparr>];
                 entry = \<lparr> hs_id = hs_id hs, hs_type = hs_type hs, lat = lat hs, lon = lon hs,
                           dotIndex = b, meshType = type, meshInstanceId = i,
                           hs_height = hotspotHeight, idleLift = 0,
                           animationPhase = (real b + real i) * idlePhaseStep c \<rparr>
             in Inr (s\<lparr> dotPositions := ds', hotspotData := hotspotData s @ [entry] \<rparr>))))"

fun bindGroup ::
  "config \<Rightarrow> string \<Rightarrow> real \<Rightarrow> nat \<Rightarrow> hotspot list \<Rightarrow> state \<Rightarrow> error + state" where
  "bindGroup c type hotspotHeight i [] s = Inr s"
| "bindGroup c type hotspotHeight i (hs # rest) s =
    (case bindHotspot c type hotspotHeight i hs s of
       Inl e \<Rightarrow> Inl e
     | Inr s' \<Rightarrow> bindGroup c type hotspotHeight (Suc i) rest s')"

text \<open>
  The keys of \<^verbatim>\<open>grouped\<close> in insertion order: each type in the order of its first hotspot
  (no type of the settings is an integer-like key, which an object would list first).
\<close>

fun groupTypes :: "hotspot list \<Rightarrow> string list" where
  "groupTypes [] = []"
| "groupTypes (h # hs) = hs_type h # filter (\<lambda>t. t \<noteq> hs_type h) (groupTypes hs)"

fun bindGroups ::
  "config \<Rightarrow> real \<Rightarrow> hotspot list \<Rightarrow> string list \<Rightarrow> state \<Rightarrow> error + state" where
  "bindGroups c hotspotHeight HOTSPOTS [] s = Inr s"
| "bindGroups c hotspotHeight HOTSPOTS (type # types) s =
    (case bindGroup c type hotspotHeight 0 (filter (\<lambda>h. hs_type h = type) HOTSPOTS) s of
       Inl e \<Rightarrow> Inl e
     | Inr s' \<Rightarrow> bindGroups c hotspotHeight HOTSPOTS types s')"

text \<open>
  \<^verbatim>\<open>buildDotsFromFile\<close>: the dots, the binding of every hotspot, then the two line
  builders. An exception leaves through every loop and rejects the promise of
  \<^verbatim>\<open>loadMapData\<close>, whose \<open>catch\<close> logs it; nothing after the throwing statement runs.
\<close>

definition buildDotsFromFile ::
  "config \<Rightarrow> (real \<times> real) list \<Rightarrow> hotspot list \<Rightarrow> state \<Rightarrow> error + state" where
  "buildDotsFromFile c dots HOTSPOTS s =
    (let s1 = createDots c dots s;
         hotspotHeight = snd (buildHotspotGeometryFromLayout (layout c))
     in case bindGroups c hotspotHeight HOTSPOTS (groupTypes HOTSPOTS) s1 of
          Inl e \<Rightarrow> Inl e
        | Inr s2 \<Rightarrow>
           (case buildHotspotConnectionLine c s2 of
              Inl e \<Rightarrow> Inl e
            | Inr s3 \<Rightarrow> buildHotspotPairConnections c s3))"

section \<open>Hover influence engine\<close>

text \<open>The body of the \<^verbatim>\<open>forEach\<close> of \<^verbatim>\<open>handleHover\<close> for one dot \<open>p\<close>.\<close>

definition hoverInfluence :: "config \<Rightarrow> dot \<Rightarrow> dot \<Rightarrow> dot" where
  "hoverInfluence c center p =
    (let radius = hover_radius c;
         maxLift = hover_maxLift c;
         outerRadius = radius * 1.4;
         outerRadiusSq = outerRadius * outerRadius;
         invRadius = 1 / radius;
         dx = (dot_x p - dot_x center) * SPACING c;
         dy = (dot_y p - dot_y center) * SPACING c;
         d2 = dx * dx + dy * dy
     in if d2 < outerRadiusSq then
          (let t = sqrt d2 * invRadius
           in p\<lparr> targetLift := max (targetLift p) (exp (- t * t) * maxLift) \<rparr>)
        else p)"

text \<open>
  \<^verbatim>\<open>handleHover\<close>; \<open>hit\<close> is the instance id of the first intersection of the pointer ray
  with the hover proxy mesh, if there is one. With a held id that names no dot, the
  first dot visited reads \<open>center.x\<close> of \<open>undefined\<close> and raises.
\<close>

definition handleHover :: "config \<Rightarrow> nat option \<Rightarrow> state \<Rightarrow> error + state" where
  "handleHover c hit s =
    (if \<not> meshesBuilt s then Inr s
     else
       (let s1 =
              (case hit of
                 Some ident \<Rightarrow>
                   if hoveredInstanceId s \<noteq> Some ident
                   then s\<lparr> hoveredInstanceId := Some ident,
                           hoverCooldown := hoverCooldownFrames c \<rparr>
                   else s
               | None \<Rightarrow>
                   if hoverCooldown s \<le> 0 then s\<lparr> hoveredInstanceId := None \<rparr> else s);
            s2 = s1\<lparr> hoverCooldown := max (hoverCooldown s1 - 1) 0 \<rparr>
        in case hoveredInstanceId s2 of
             None \<Rightarrow> Inr s2
           | Some ident \<Rightarrow>
               if dotPositions s2 = [] then Inr (s2\<lparr> liftActive := True \<rparr>)
               else if length (dotPositions s2) \<le> ident then Inl TypeError
               else Inr (s2\<lparr> liftActive := True,
                              dotPositions :=
                                map (hoverInfluence c (dotPositions s2 ! ident))
                                  (dotPositions s2) \<rparr>)))"

text \<open>
  The \<^verbatim>\<open>forEach\<close> of \<^verbatim>\<open>smoothLiftUpdate\<close> from dot \<open>i\<close> on: the dots as updated, the
  instance matrices as rewritten, and the \<open>dirty\<close> flag.
\<close>

fun smoothLoop ::
  "config \<Rightarrow> nat \<Rightarrow> dot list \<Rightarrow> vec3 list \<Rightarrow> bool \<Rightarrow> dot list \<times> vec3 list \<times> bool" where
  "smoothLoop c i [] M dirty = ([], M, dirty)"
| "smoothLoop c i (p # ps) M dirty =
    (let p1 = p\<lparr> targetLift := targetLift p * hoverFalloff c \<rparr>;
         delta = targetLift p1 - lift p1
     in if \<bar>delta\<bar> > hover_threshold c then
          (let p2 = p1\<lparr> lift := lift p1 + delta * hover_easing c \<rparr>
           in case smoothLoop c (Suc i) ps (M[i := dotMatrixAt c p2 (lift p2)]) True of
                (ps', M', dirty') \<Rightarrow> (p2 # ps', M', dirty'))
        else
          (case smoothLoop c (Suc i) ps M dirty of
             (ps', M', dirty') \<Rightarrow> (p1 # ps', M', dirty')))"

definition smoothLiftUpdate :: "config \<Rightarrow> state \<Rightarrow> state" where
  "smoothLiftUpdate c s =
    (if \<not> meshesBuilt s then s
     else if \<not> liftActive s \<and> hoveredInstanceId s = None then s
     else
       (case smoothLoop c 0 (dotPositions s) (instanceMatrix s) False of
          (ds, M, dirty) \<Rightarrow>
            (let s1 = s\<lparr> dotPositions := ds, instanceMatrix := M \<rparr>
             in if \<not> dirty \<and> hoveredInstanceId s = None
                then s1\<lparr> liftActive := False \<rparr> else s1)))"

text \<open>
  One frame of \<^verbatim>\<open>animate\<close>, as far as the dot field goes: the hover test, then the lift
  easing. The rest of the frame (controls, hotspot transforms, rendering) reads the
  dots and does not write them.
\<close>

definition animate :: "config \<Rightarrow> nat option \<Rightarrow> state \<Rightarrow> error + state" where
  "animate c hit s =
    (case handleHover c hit s of Inl e \<Rightarrow> Inl e | Inr s' \<Rightarrow> Inr (smoothLiftUpdate c s'))"

fun ticks :: "config \<Rightarrow> nat option list \<Rightarrow> state \<Rightarrow> error + state" where
  "ticks c [] s = Inr s"
| "ticks c (hit # hits) s =
    (case animate c hit s of Inl e \<Rightarrow> Inl e | Inr s' \<Rightarrow> ticks c hits s')"

text \<open>The hover test alone over a sequence of frames (the hysteresis of the held id).\<close>

fun hovers :: "config \<Rightarrow> nat option list \<Rightarrow> state \<Rightarrow> error + state" where
  "hovers c [] s = Inr s"
| "hovers c (hit # hits) s =
    (case handleHover c hit s of Inl e \<Rightarrow> Inl e | Inr s' \<Rightarrow> hovers c hits s')"

text \<open>The operations that write a dot's \<open>lift\<close> or \<open>targetLift\<close>, or bind a hotspot to it.\<close>

datatype operation =
  Bind string real nat hotspot
  | Hover "nat option"
  | Ease

fun applyOp :: "config \<Rightarrow> operation \<Rightarrow> state \<Rightarrow> error + state" where
  "applyOp c (Bind type hotspotHeight i hs) s = bindHotspot c type hotspotHeight i hs s"
| "applyOp c (Hover hit) s = handleHover c hit s"
| "applyOp c Ease s = Inr (smoothLiftUpdate c s)"

fun runOps :: "config \<Rightarrow> operation list \<Rightarrow> state \<Rightarrow> error + state" where
  "runOps c [] s = Inr s"
| "runOps c (op # ops) s =
    (case applyOp c op s of Inl e \<Rightarrow> Inl e | Inr s' \<Rightarrow> runOps c ops s')"

definition liftsNonNegative :: "state \<Rightarrow> bool" where
  "liftsNonNegative s = list_all (\<lambda>p. 0 \<le> lift p \<and> 0 \<le> targetLift p) (dotPositions s)"

text \<open>
  A held id is usable when the meshes exist and the id names a dot. The ray test only
  reports instances of the proxy mesh, which has one instance per dot.
\<close>

definition heldOk :: "state \<Rightarrow> bool" where
  "heldOk s =
    (meshesBuilt s \<and>
     (case hoveredInstanceId s of None \<Rightarrow> True | Some i \<Rightarrow> i < length (dotPositions s)))"

text \<open>The id held after a sequence of hover tests.\<close>

definition heldAfter :: "config \<Rightarrow> nat option list \<Rightarrow> state \<Rightarrow> error + nat option" where
  "heldAfter c hits s =
    (case hovers c hits s of Inl e \<Rightarrow> Inl e | Inr s' \<Rightarrow> Inr (hoveredInstanceId s'))"

section \<open>Example settings\<close>

text \<open>
  Settings for the worked examples. The values the configuration reference documents are
  used where it gives one (dot radius \<open>0.09\<close>, dot height \<open>0.3\<close>, spacing \<open>1.5\<close>, map
  offsets \<open>-0.8\<close>, multipliers \<open>1.5\<close> and \<open>2.2\<close>, hover radius \<open>0.35\<close>, active preset
  \<open>tower\<close>); the others are chosen for the examples.
\<close>

definition exampleLayout :: layoutConfig where
  "exampleLayout = \<lparr> dots_radius = 0.09, dots_height = 0.3, radiusMultiplier = 1.5,
     heightMultiplier = 2.2, hotspots_radialSegments = 16, dome_heightRatio = 0.35,
     dome_segments = 8, layout_active = Some ''tower'', layout_presets = (\<lambda>n. None) \<rparr>"

definition exampleLine :: lineCfg where
  "exampleLine = \<lparr> enabled = True, drawSequential = Some True, line_thickness = 0.01,
     line_segments = 2, line_arcHeight = 1, line_color = 0, line_opacity = 1,
     line_heightOffset = 0, line_radialSegments = 6 \<rparr>"

definition exampleConfig :: config where
  "exampleConfig = \<lparr> SPACING = 1.5, MAP_OFFSET_X = - 0.8, DOT_BASE_Y = - 0.8,
     DOT_HEIGHT = 0.3, idlePhaseStep = 0.55, hover_radius = 0.35, hover_maxLift = 1,
     hover_easing = 1 / 4, hover_threshold = 1 / 8, hoverCooldownFrames = 3,
     hoverFalloff = 1 / 2, connectionLine = exampleLine, connectionPairs = [],
     layout = exampleLayout \<rparr>"

text \<open>The scene after loading a map of one dot, at the origin, and no hotspot.\<close>

definition oneDotState :: state where
  "oneDotState = createDots exampleConfig [(0, 0)] initialState"

section \<open>Observations and worked scenes\<close>

text \<open>
  What one pass of the easing loop makes of a dot, and the \<open>delta\<close> it computes for it
  (after the decay of \<open>targetLift\<close>).
\<close>

definition easedDot :: "config \<Rightarrow> dot \<Rightarrow> dot" where
  "easedDot c p =
    (let p1 = p\<lparr> targetLift := targetLift p * hoverFalloff c \<rparr>;
         delta = targetLift p1 - lift p1
     in if \<bar>delta\<bar> > hover_threshold c
        then p1\<lparr> lift := lift p1 + delta * hover_easing c \<rparr> else p1)"

definition tickDelta :: "config \<Rightarrow> dot \<Rightarrow> real" where
  "tickDelta c p = targetLift p * hoverFalloff c - lift p"

text \<open>Observations of the scene after a sequence of frames.\<close>

definition targetLiftsAfter :: "config \<Rightarrow> nat option list \<Rightarrow> state \<Rightarrow> error + real list" where
  "targetLiftsAfter c hits s =
    (case ticks c hits s of Inl e \<Rightarrow> Inl e | Inr s' \<Rightarrow> Inr (map targetLift (dotPositions s')))"

definition activeAfter :: "config \<Rightarrow> nat option list \<Rightarrow> state \<Rightarrow> bool" where
  "activeAfter c hits s =
    (case ticks c hits s of Inl e \<Rightarrow> False | Inr s' \<Rightarrow> liftActive s')"

definition dotsAfter ::
  "config \<Rightarrow> nat option list \<Rightarrow> state \<Rightarrow> error + dot list \<times> vec3 list" where
  "dotsAfter c hits s =
    (case ticks c hits s of
       Inl e \<Rightarrow> Inl e
     | Inr s' \<Rightarrow> Inr (dotPositions s', instanceMatrix s'))"

text \<open>The guard of \<^verbatim>\<open>smoothLiftUpdate\<close>: the frame is skipped unless this holds.\<close>

definition engineRuns :: "state \<Rightarrow> bool" where
  "engineRuns s = (meshesBuilt s \<and> (liftActive s \<or> hoveredInstanceId s \<noteq> None))"

text \<open>
  The example settings with no cooldown, and with a finer threshold; and the one-dot
  scene after the pointer has been on the dot for one frame (\<open>liftedState\<close>), after the
  hover test of the next frame has released it (\<open>pausedState\<close>), and after that frame's
  easing (\<open>restState\<close>).
\<close>

definition quickConfig :: config where
  "quickConfig = exampleConfig\<lparr> hoverCooldownFrames := 0 \<rparr>"

definition fineConfig :: config where
  "fineConfig = quickConfig\<lparr> hover_threshold := 1 / 100 \<rparr>"

definition liftedState :: state where
  "liftedState = oneDotState\<lparr>
     dotPositions := [\<lparr> dot_x = 0, dot_y = 0, lift = 1 / 8, targetLift = 1 / 2,
                        isHotspot = False, hotspotIndex = - 1 \<rparr>],
     instanceMatrix := [(- 0.8, - 0.525, 0)],
     hoveredInstanceId := Some 0, liftActive := True \<rparr>"

definition pausedState :: state where
  "pausedState = liftedState\<lparr> hoveredInstanceId := None \<rparr>"

definition restState :: state where
  "restState = pausedState\<lparr>
     dotPositions := [\<lparr> dot_x = 0, dot_y = 0, lift = 1 / 8, targetLift = 1 / 4,
                        isHotspot = False, hotspotIndex = - 1 \<rparr>],
     liftActive := False \<rparr>"

text \<open>
  The planar distance between two dots in world units, the root of the \<open>d2\<close> of
  \<^verbatim>\<open>handleHover\<close>; and the target lifts after one hover test.
\<close>

definition planarDistance :: "config \<Rightarrow> dot \<Rightarrow> dot \<Rightarrow> real" where
  "planarDistance c p q =
    sqrt (((dot_x p - dot_x q) * SPACING c) * ((dot_x p - dot_x q) * SPACING c)
        + ((dot_y p - dot_y q) * SPACING c) * ((dot_y p - dot_y q) * SPACING c))"

definition targetLiftsAfterHover :: "config \<Rightarrow> nat option \<Rightarrow> state \<Rightarrow> error + real list" where
  "targetLiftsAfterHover c hit s =
    (case handleHover c hit s of
       Inl e \<Rightarrow> Inl e
     | Inr s' \<Rightarrow> Inr (map targetLift (dotPositions s')))"

text \<open>
  Settings with spacing \<open>1\<close> and hover radius \<open>5\<close>, and a scene of three dots in a row,
  at distances \<open>5\<close> and \<open>7 = 1.4 * 5\<close> from the first. A hotspot at the origin.
\<close>

definition edgeConfig :: config where
  "edgeConfig = exampleConfig\<lparr> SPACING := 1, hover_radius := 5 \<rparr>"

definition threeDotState :: state where
  "threeDotState = createDots edgeConfig [(0, 0), (5, 0), (7, 0)] initialState"

definition exampleHotspot :: hotspot where
  "exampleHotspot = \<lparr> hs_id = ''SG-1'', hs_type = ''global'', lat = 0, lon = 0 \<rparr>"

text \<open>
  Every bound hotspot names a dot that exists, as binding leaves it; and the world
  position \<^verbatim>\<open>getHotspotWorldPosition\<close> then writes.
\<close>

definition hotspotsBound :: "state \<Rightarrow> bool" where
  "hotspotsBound s =
    list_all (\<lambda>h. dotIndex h < length (dotPositions s)) (hotspotData s)"

definition hotspotPos :: "config \<Rightarrow> dot list \<Rightarrow> hotspotRec \<Rightarrow> vec3" where
  "hotspotPos c ds hs =
    (getMapWorldX c (dot_x (ds ! dotIndex hs)),
     getCylinderCenterY c (hs_height hs) (lift (ds ! dotIndex hs) + idleLift hs)
       + line_heightOffset (connectionLine c),
     - dot_y (ds ! dotIndex hs) * SPACING c)"

text \<open>A bound hotspot with the given id on dot \<open>n\<close>, and three of them on the three-dot scene.\<close>

definition boundHotspot :: "string \<Rightarrow> nat \<Rightarrow> hotspotRec" where
  "boundHotspot ident n =
    \<lparr> hs_id = ident, hs_type = ''global'', lat = 0, lon = 0, dotIndex = n,
      meshType = ''global'', meshInstanceId = n, hs_height = 0.66, idleLift = 0,
      animationPhase = 0 \<rparr>"

definition chainState :: state where
  "chainState = threeDotState\<lparr> hotspotData :=
     [boundHotspot ''SG-1'' 0, boundHotspot ''kl-2'' 1, boundHotspot ''Bkk-3'' 2] \<rparr>"

text \<open>
  What the claims about manual pairs speak of: a pair both of whose ids are found, and
  the line entry a resolved pair is to produce (the merged style, the two indices, the
  tube between the two world positions).
\<close>

definition pairResolved :: "hotspotRec list \<Rightarrow> connectionPair \<Rightarrow> bool" where
  "pairResolved hsd pair =
    (0 \<le> findHotspotIndexById hsd (fromId pair) \<and> 0 \<le> findHotspotIndexById hsd (toId pair))"

definition pairEntry :: "config \<Rightarrow> state \<Rightarrow> connectionPair \<Rightarrow> pairLine" where
  "pairEntry c s pair =
    (let pcfg = mergePairCfg (connectionLine c) pair;
         fi = nat (findHotspotIndexById (hotspotData s) (fromId pair));
         ti = nat (findHotspotIndexById (hotspotData s) (toId pair))
     in \<lparr> pl_mesh =
            buildArcTube
              (collectArcPointsBetween (hotspotPos c (dotPositions s) (hotspotData s ! fi))
                 (hotspotPos c (dotPositions s) (hotspotData s ! ti)) pcfg) pcfg,
          pl_fromIndex = fi, pl_toIndex = ti, pl_cfg = pcfg \<rparr>)"

text \<open>
  A pair overriding colour and segments, settings with one resolvable and one unresolvable
  pair, and the same settings with connection lines switched off.
\<close>

definition examplePair :: "string \<Rightarrow> string \<Rightarrow> connectionPair" where
  "examplePair a b =
    \<lparr> fromId = Some a, toId = Some b, pair_color = Some 255, pair_opacity = None,
      pair_arcHeight = None, pair_segments = Some 4, pair_thickness = None,
      pair_radialSegments = None, pair_heightOffset = None \<rparr>"

definition pairsConfig :: config where
  "pairsConfig = edgeConfig\<lparr> connectionPairs :=
     [examplePair ''sg-1'' ''BKK-3'', examplePair ''sg-1'' ''nowhere''] \<rparr>"

definition pairsOffConfig :: config where
  "pairsOffConfig = pairsConfig\<lparr> connectionLine := exampleLine\<lparr> enabled := False \<rparr> \<rparr>"

section \<open>Geometry factory: results\<close>


lemma createDomedCylinderGeometry_domeHeight:
  "dc_domeHeight (createDomedCylinderGeometry tr br h q)
     = min (tr * max 0.08 (min q 0.7)) (h * 0.45)"
  by (simp add: createDomedCylinderGeometry_def Let_def)

lemma createDomedCylinderGeometry_cylinderHeight:
  "dc_cylinderHeight (createDomedCylinderGeometry tr br h q)
     = max 0.001 (h - dc_domeHeight (createDomedCylinderGeometry tr br h q))"
  by (simp add: createDomedCylinderGeometry_def Let_def)


lemma createCrystalHotspotGeometry_heights:
  "cr_bodyHeight (createCrystalHotspotGeometry r h s p)
      = max 0.04 (h * max 0.35 (min 0.82 (nullish (bodyHeightRatio p) 0.64)))"
  "cr_tipHeight (createCrystalHotspotGeometry r h s p)
      = max 0.04 (h - cr_bodyHeight (createCrystalHotspotGeometry r h s p))"
  by (simp_all add: createCrystalHotspotGeometry_def Let_def)

lemma createBeaconHotspotGeometry_heights:
  "bc_tier1Height (createBeaconHotspotGeometry r h s p)
      = max 0.04 (h * max 0.2 (min 0.7 (nullish (tier1HeightRatio p) 0.44)))"
  "bc_tier2Height (createBeaconHotspotGeometry r h s p)
      = max 0.04 (h * max 0.15 (min 0.55 (nullish (tier2HeightRatio p) 0.33)))"
  "bc_tipHeight (createBeaconHotspotGeometry r h s p)
      = max 0.04 (h - bc_tier1Height (createBeaconHotspotGeometry r h s p)
                    - bc_tier2Height (createBeaconHotspotGeometry r h s p))"
  by (simp_all add: createBeaconHotspotGeometry_def Let_def)

lemma createOrbitalHotspotGeometry_core:
  "ob_core (createOrbitalHotspotGeometry tr br h q p) = createDomedCylinderGeometry tr br h q"
  by (simp add: createOrbitalHotspotGeometry_def Let_def)

lemma domedHeight_exact:
  assumes "0.08 \<le> h"
  shows "domedHeight (createDomedCylinderGeometry tr br h q) = h"
proof -
  let ?d = "createDomedCylinderGeometry tr br h q"
  have "dc_domeHeight ?d \<le> h * 0.45"
    unfolding createDomedCylinderGeometry_domeHeight by simp
  with assms have "0.001 \<le> h - dc_domeHeight ?d" by simp
  then have "dc_cylinderHeight ?d = h - dc_domeHeight ?d"
    unfolding createDomedCylinderGeometry_cylinderHeight by simp
  then show ?thesis by (simp add: domedHeight_def)
qed

text \<open>
  Claim C6, as the code has it. For a requested height of at least \<open>0.08\<close> (the floor
  \<^verbatim>\<open>buildHotspotGeometryFromLayout\<close> enforces), the domed cylinder and the orbital's core
  stack to exactly the requested height. The crystal and the beacon do so exactly when
  their tip is not floored at \<open>0.04\<close>, that is when the height left over by the body
  (the two tiers) is at least \<open>0.04\<close>; otherwise the stack is the body (the tiers) plus
  \<open>0.04\<close>, which exceeds the requested height.
\<close>

theorem assembled_height_exact_unless_tip_floor:
  assumes "0.08 \<le> height"
  shows "assembledHeight (DomedCylinder (createDomedCylinderGeometry tr br height q)) = height
    \<and> assembledHeight (Orbital (createOrbitalHotspotGeometry tr br height q p)) = height
    \<and> assembledHeight (Crystal (createCrystalHotspotGeometry r height segs p))
        = (if 0.04 \<le> height - cr_bodyHeight (createCrystalHotspotGeometry r height segs p)
           then height
           else cr_bodyHeight (createCrystalHotspotGeometry r height segs p) + 0.04)
    \<and> height \<le> assembledHeight (Crystal (createCrystalHotspotGeometry r height segs p))
    \<and> assembledHeight (Beacon (createBeaconHotspotGeometry r height segs p))
        = (if 0.04 \<le> height - bc_tier1Height (createBeaconHotspotGeometry r height segs p)
                           - bc_tier2Height (createBeaconHotspotGeometry r height segs p)
           then height
           else bc_tier1Height (createBeaconHotspotGeometry r height segs p)
              + bc_tier2Height (createBeaconHotspotGeometry r height segs p) + 0.04)
    \<and> height \<le> assembledHeight (Beacon (createBeaconHotspotGeometry r height segs p))"
proof -
  have d: "assembledHeight (DomedCylinder (createDomedCylinderGeometry tr br height q)) = height"
    using domedHeight_exact [OF assms] by simp
  have ob: "assembledHeight (Orbital (createOrbitalHotspotGeometry tr br height q p)) = height"
    using domedHeight_exact [OF assms] by (simp add: createOrbitalHotspotGeometry_core)
  have c: "assembledHeight (Crystal (createCrystalHotspotGeometry r height segs p))
        = (if 0.04 \<le> height - cr_bodyHeight (createCrystalHotspotGeometry r height segs p)
           then height
           else cr_bodyHeight (createCrystalHotspotGeometry r height segs p) + 0.04)"
    by (simp add: createCrystalHotspotGeometry_heights(2) max_def)
  have c': "height \<le> assembledHeight (Crystal (createCrystalHotspotGeometry r height segs p))"
    by (simp add: createCrystalHotspotGeometry_heights(2) max_def)
  have b: "assembledHeight (Beacon (createBeaconHotspotGeometry r height segs p))
        = (if 0.04 \<le> height - bc_tier1Height (createBeaconHotspotGeometry r height segs p)
                           - bc_tier2Height (createBeaconHotspotGeometry r height segs p)
           then height
           else bc_tier1Height (createBeaconHotspotGeometry r height segs p)
              + bc_tier2Height (createBeaconHotspotGeometry r height segs p) + 0.04)"
    by (simp add: createBeaconHotspotGeometry_heights(3) max_def)
  have b': "height \<le> assembledHeight (Beacon (createBeaconHotspotGeometry r height segs p))"
    by (simp add: createBeaconHotspotGeometry_heights(3) max_def)
  from d ob c c' b b' show ?thesis by blast
qed

lemma buildHotspotGeometryFromLayout_floor:
  "0.08 \<le> snd (buildHotspotGeometryFromLayout cfg)"
  by (simp add: buildHotspotGeometryFromLayout_def Let_def)

text \<open>
  Claim C6 as stated fails: a beacon whose tier ratios are the upper ends of their clamp
  ranges (\<open>0.7\<close> and \<open>0.55\<close>), requested at height \<open>1\<close>, stacks to \<open>1.29\<close>.
\<close>

theorem beacon_height_counterexample:
  "assembledHeight (Beacon (createBeaconHotspotGeometry 0.135 1 8
      (emptyPreset\<lparr>tier1HeightRatio := Some 0.7, tier2HeightRatio := Some 0.55\<rparr>))) = 1.29
   \<and> \<not> \<bar>assembledHeight (Beacon (createBeaconHotspotGeometry 0.135 1 8
      (emptyPreset\<lparr>tier1HeightRatio := Some 0.7, tier2HeightRatio := Some 0.55\<rparr>))) - 1\<bar> \<le> 0.001"
  by (simp add: createBeaconHotspotGeometry_heights emptyPreset_def nullish_def)

text \<open>The crystal with no preset overrides, requested at the floor \<open>0.08\<close>, stacks to \<open>0.0912\<close>.\<close>

lemma crystal_height_at_floor:
  "assembledHeight (Crystal (createCrystalHotspotGeometry 0.135 0.08 8 emptyPreset)) = 0.0912"
  by (simp add: createCrystalHotspotGeometry_heights emptyPreset_def nullish_def)

theorem assembled_height_witness:
  "(0.08::real) \<le> 0.66
   \<and> assembledHeight (DomedCylinder (createDomedCylinderGeometry 0.135 0.135 0.66 0.35)) = 0.66
   \<and> assembledHeight (Crystal (createCrystalHotspotGeometry 0.135 0.66 8 emptyPreset)) = 0.66
   \<and> assembledHeight (Beacon (createBeaconHotspotGeometry 0.135 0.66 8 emptyPreset)) = 0.66"
  using assembled_height_exact_unless_tip_floor [where height = "0.66" and tr = "0.135"
      and br = "0.135" and q = "0.35" and p = emptyPreset and r = "0.135" and segs = 8]
  by (simp add: createCrystalHotspotGeometry_heights createBeaconHotspotGeometry_heights
        emptyPreset_def nullish_def)

text \<open>
  The sphere cap the dome is cut from really is \<open>domeHeight\<close> tall: with
  \<open>theta = 2 * arctan (domeHeight / topRadius)\<close> the distance from the rim to the pole,
  \<open>sphereRadius - rimY\<close>, is \<open>domeHeight\<close>.
\<close>

lemma cap_height_identity:
  fixes tr dh :: real
  assumes "0 < tr" "0 < dh"
  shows "tr / sin (2 * arctan (dh / tr)) - tr / sin (2 * arctan (dh / tr)) * cos (2 * arctan (dh / tr)) = dh"
proof -
  define a where "a = arctan (dh / tr)"
  have pos: "0 < a" using assms by (simp add: a_def zero_less_arctan_iff)
  have ub: "a < pi / 2" unfolding a_def by (rule arctan_ubound)
  have s: "0 < sin a" using pos ub by (intro sin_gt_zero) auto
  have c: "0 < cos a" using pos ub by (intro cos_gt_zero_pi) auto
  have t: "tan a = dh / tr" by (simp add: a_def tan_arctan)
  have "tr / sin (2 * a) - tr / sin (2 * a) * cos (2 * a)
        = tr * (1 - cos (2 * a)) / sin (2 * a)"
    by (simp add: algebra_simps diff_divide_distrib)
  also have "\<dots> = tr * (2 * sin a * sin a) / (2 * sin a * cos a)"
    by (simp add: cos_double_sin sin_double power2_eq_square)
  also have "\<dots> = tr * tan a"
    using s c by (simp add: tan_def)
  also have "\<dots> = dh" using assms t by simp
  finally show ?thesis by (simp add: a_def)
qed

lemma dome_cap_extent:
  assumes "0 < tr" "0 < dc_domeHeight (createDomedCylinderGeometry tr br h q)"
  shows "dc_sphereRadius (createDomedCylinderGeometry tr br h q)
           - dc_rimY (createDomedCylinderGeometry tr br h q)
         = dc_domeHeight (createDomedCylinderGeometry tr br h q)"
proof -
  let ?d = "createDomedCylinderGeometry tr br h q"
  have th: "dc_theta ?d = 2 * arctan (dc_domeHeight ?d / tr)"
    by (simp add: createDomedCylinderGeometry_def Let_def)
  have sr: "dc_sphereRadius ?d = tr / sin (dc_theta ?d)"
    by (simp add: createDomedCylinderGeometry_def Let_def)
  have ry: "dc_rimY ?d = dc_sphereRadius ?d * cos (dc_theta ?d)"
    by (simp add: createDomedCylinderGeometry_def Let_def)
  show ?thesis
    unfolding ry sr th by (rule cap_height_identity [OF assms])
qed

section \<open>Hover hysteresis\<close>

lemma length_hoverInfluence [simp]:
  "length (map (hoverInfluence c ctr) ds) = length ds"
  by simp

lemma handleHover_hit:
  assumes "meshesBuilt s" "ident < length (dotPositions s)"
  shows "\<exists>s'. handleHover c (Some ident) s = Inr s'
     \<and> hoveredInstanceId s' = Some ident
     \<and> hoverCooldown s' =
          max ((if hoveredInstanceId s = Some ident then hoverCooldown s
                else hoverCooldownFrames c) - 1) 0
     \<and> meshesBuilt s' \<and> length (dotPositions s') = length (dotPositions s)"
  using assms by (auto simp: handleHover_def Let_def)

lemma handleHover_miss:
  assumes "heldOk s"
  shows "\<exists>s'. handleHover c None s = Inr s'
     \<and> hoveredInstanceId s' = (if hoverCooldown s \<le> 0 then None else hoveredInstanceId s)
     \<and> hoverCooldown s' = max (hoverCooldown s - 1) 0
     \<and> meshesBuilt s' \<and> length (dotPositions s') = length (dotPositions s)"
  using assms by (auto simp: handleHover_def heldOk_def Let_def split: option.splits)

lemma hovers_append:
  "hovers c (xs @ ys) s = (case hovers c xs s of Inl e \<Rightarrow> Inl e | Inr s' \<Rightarrow> hovers c ys s')"
  by (induction xs arbitrary: s) (auto split: sum.splits)

lemma hovers_hits:
  assumes "meshesBuilt s" "ident < length (dotPositions s)" "hoveredInstanceId s \<noteq> Some ident"
  shows "\<exists>s'. hovers c (replicate (Suc h) (Some ident)) s = Inr s'
     \<and> hoveredInstanceId s' = Some ident
     \<and> hoverCooldown s' = max (hoverCooldownFrames c - int (Suc h)) 0
     \<and> meshesBuilt s' \<and> length (dotPositions s') = length (dotPositions s)"
proof (induction h)
  case 0
  from handleHover_hit [OF assms(1,2), of c] assms(3) show ?case by auto
next
  case (Suc h)
  then obtain s1 where s1: "hovers c (replicate (Suc h) (Some ident)) s = Inr s1"
    "hoveredInstanceId s1 = Some ident"
    "hoverCooldown s1 = max (hoverCooldownFrames c - int (Suc h)) 0"
    "meshesBuilt s1" "length (dotPositions s1) = length (dotPositions s)" by blast
  from handleHover_hit [of s1 ident c] s1 assms(2)
  obtain s2 where s2: "handleHover c (Some ident) s1 = Inr s2"
    "hoveredInstanceId s2 = Some ident"
    "hoverCooldown s2 = max (hoverCooldown s1 - 1) 0"
    "meshesBuilt s2" "length (dotPositions s2) = length (dotPositions s1)" by auto
  have "replicate (Suc (Suc h)) (Some ident) = replicate (Suc h) (Some ident) @ [Some ident]"
    by (simp add: replicate_append_same)
  then have "hovers c (replicate (Suc (Suc h)) (Some ident)) s = Inr s2"
    using s1(1) s2(1) by (simp add: hovers_append del: replicate_Suc)
  moreover have "hoverCooldown s2 = max (hoverCooldownFrames c - int (Suc (Suc h))) 0"
    using s2(3) s1(3) by simp
  ultimately show ?case using s2 s1(5) by simp
qed

lemma hovers_misses:
  assumes "meshesBuilt s" "ident < length (dotPositions s)"
    "hoveredInstanceId s = Some ident" "hoverCooldown s = max (n - k) 0"
  shows "\<exists>s'. hovers c (replicate m None) s = Inr s'
     \<and> hoveredInstanceId s' = (if m = 0 \<or> k + int m \<le> n then Some ident else None)
     \<and> (hoveredInstanceId s' = Some ident \<longrightarrow> hoverCooldown s' = max (n - (k + int m)) 0)
     \<and> meshesBuilt s' \<and> length (dotPositions s') = length (dotPositions s)"
proof (induction m)
  case 0
  then show ?case using assms by simp
next
  case (Suc m)
  then obtain s1 where s1: "hovers c (replicate m None) s = Inr s1"
    "hoveredInstanceId s1 = (if m = 0 \<or> k + int m \<le> n then Some ident else None)"
    "hoveredInstanceId s1 = Some ident \<longrightarrow> hoverCooldown s1 = max (n - (k + int m)) 0"
    "meshesBuilt s1" "length (dotPositions s1) = length (dotPositions s)" by blast
  have ok: "heldOk s1" using s1 assms(2) by (auto simp: heldOk_def)
  from handleHover_miss [OF ok, of c]
  obtain s2 where s2: "handleHover c None s1 = Inr s2"
    "hoveredInstanceId s2 = (if hoverCooldown s1 \<le> 0 then None else hoveredInstanceId s1)"
    "hoverCooldown s2 = max (hoverCooldown s1 - 1) 0"
    "meshesBuilt s2" "length (dotPositions s2) = length (dotPositions s1)" by auto
  have "replicate (Suc m) None = replicate m (None::nat option) @ [None]"
    by (simp add: replicate_append_same)
  then have run: "hovers c (replicate (Suc m) None) s = Inr s2"
    using s1(1) s2(1) by (simp add: hovers_append del: replicate_Suc)
  have held: "hoveredInstanceId s2 = (if k + int (Suc m) \<le> n then Some ident else None)"
    using s2(2) s1(2,3) by (auto split: if_splits)
  have cd: "hoveredInstanceId s2 = Some ident \<longrightarrow> hoverCooldown s2 = max (n - (k + int (Suc m))) 0"
    using s2(2,3) s1(2,3) by (auto split: if_splits)
  show ?case using run held cd s2(4,5) s1(5) by auto
qed

lemma hovers_hits_then_misses:
  assumes "meshesBuilt s" "ident < length (dotPositions s)" "hoveredInstanceId s \<noteq> Some ident"
  shows "\<exists>s'. hovers c (replicate (Suc h) (Some ident) @ replicate m None) s = Inr s'
     \<and> hoveredInstanceId s' =
         (if m = 0 \<or> int (Suc h) + int m \<le> hoverCooldownFrames c then Some ident else None)"
proof -
  from hovers_hits [OF assms, of c h]
  obtain s1 where s1: "hovers c (replicate (Suc h) (Some ident)) s = Inr s1"
    "hoveredInstanceId s1 = Some ident"
    "hoverCooldown s1 = max (hoverCooldownFrames c - int (Suc h)) 0"
    "meshesBuilt s1" "length (dotPositions s1) = length (dotPositions s)" by blast
  from hovers_misses [of s1 ident "hoverCooldownFrames c" "int (Suc h)" c m] s1 assms(2)
  obtain s2 where "hovers c (replicate m None) s1 = Inr s2"
    "hoveredInstanceId s2 =
       (if m = 0 \<or> int (Suc h) + int m \<le> hoverCooldownFrames c then Some ident else None)"
    by auto
  then show ?thesis using s1(1) by (simp add: hovers_append del: replicate_Suc)
qed

text \<open>
  Claim C2, as the code has it. The cooldown is set when an id is acquired and counts
  down on every frame after, also while the ray still hits the same dot. When the ray
  hits a new dot for \<open>h + 1\<close> frames and then nothing for \<open>m\<close> frames, the id is still
  held after the last frame exactly when \<open>m = 0\<close> or \<open>h + 1 + m\<close> is at most
  \<open>hoverCooldownFrames\<close>: the id survives a frame with no hit only while fewer than
  \<open>hoverCooldownFrames\<close> frames have passed since it was acquired.
\<close>

theorem held_id_counts_from_acquisition:
  assumes "meshesBuilt s" "ident < length (dotPositions s)" "hoveredInstanceId s \<noteq> Some ident"
  shows "heldAfter c (replicate (Suc h) (Some ident) @ replicate m None) s =
           Inr (if m = 0 \<or> int (Suc h) + int m \<le> hoverCooldownFrames c
                then Some ident else None)"
  using hovers_hits_then_misses [OF assms, of c h m] by (auto simp: heldAfter_def)

lemma oneDotState_simps:
  "meshesBuilt oneDotState"
  "length (dotPositions oneDotState) = 1"
  "hoveredInstanceId oneDotState = None"
  "hoverCooldown oneDotState = 0"
  "liftActive oneDotState = False"
  by (simp_all add: oneDotState_def createDots_def initialState_def)

theorem held_id_counts_from_acquisition_witness:
  "meshesBuilt oneDotState \<and> 0 < length (dotPositions oneDotState)
   \<and> hoveredInstanceId oneDotState \<noteq> Some 0
   \<and> heldAfter exampleConfig (replicate (Suc 0) (Some 0) @ replicate 2 None) oneDotState
        = Inr (Some 0)
   \<and> heldAfter exampleConfig (replicate (Suc 0) (Some 0) @ replicate 3 None) oneDotState
        = Inr None"
  using held_id_counts_from_acquisition [of oneDotState 0 exampleConfig 0 2]
        held_id_counts_from_acquisition [of oneDotState 0 exampleConfig 0 3]
  by (simp add: oneDotState_simps exampleConfig_def)

text \<open>
  Claim C2 as stated fails. With \<open>hoverCooldownFrames = 3\<close> and the pointer resting on
  dot \<open>0\<close> for four frames, the id is cleared on the first frame the ray misses; the
  claim has it held for the cooldown after the ray stops hitting.
\<close>

theorem held_id_cleared_at_once_counterexample:
  "heldAfter exampleConfig [Some 0, Some 0, Some 0, Some 0, None] oneDotState = Inr None"
proof -
  have fresh: "hoveredInstanceId oneDotState \<noteq> Some 0" by (simp add: oneDotState_simps)
  have run: "[Some 0, Some 0, Some 0, Some 0, None]
               = replicate (Suc 3) (Some (0::nat)) @ replicate 1 None"
    by (simp add: numeral_eq_Suc)
  have frames: "hoverCooldownFrames exampleConfig = 3" by (simp add: exampleConfig_def)
  from hovers_hits_then_misses [of oneDotState 0, OF _ _ fresh, of exampleConfig 3 1]
  obtain s' where
    "hovers exampleConfig (replicate (Suc 3) (Some 0) @ replicate 1 None) oneDotState = Inr s'"
    "hoveredInstanceId s' = None"
    using frames by (auto simp: oneDotState_simps)
  then show ?thesis unfolding heldAfter_def run by simp
qed

section \<open>Lift easing and decay\<close>

lemma smoothLoop_dots:
  "fst (smoothLoop c i ds M d) = map (easedDot c) ds"
  by (induction ds arbitrary: i M d)
     (simp_all add: Let_def easedDot_def case_prod_beta)

lemma smoothLoop_dirty:
  "snd (snd (smoothLoop c i ds M d)) = (d \<or> list_ex (\<lambda>p. \<bar>tickDelta c p\<bar> > hover_threshold c) ds)"
  by (induction ds arbitrary: i M d)
     (simp_all add: Let_def tickDelta_def case_prod_beta)

lemma smoothLoop_matrix_length:
  "length (fst (snd (smoothLoop c i ds M d))) = length M"
  by (induction ds arbitrary: i M d)
     (simp_all add: Let_def case_prod_beta)

lemma smoothLoop_matrix_keep:
  assumes "k < i \<or> i + length ds \<le> k \<or> \<bar>tickDelta c (ds ! (k - i))\<bar> \<le> hover_threshold c"
  shows "fst (snd (smoothLoop c i ds M d)) ! k = M ! k"
  using assms
proof (induction ds arbitrary: i M d)
  case Nil
  then show ?case by simp
next
  case (Cons p ps)
  have rest: "k < Suc i \<or> Suc i + length ps \<le> k
       \<or> \<bar>tickDelta c (ps ! (k - Suc i))\<bar> \<le> hover_threshold c" if "k \<noteq> i"
  proof -
    from Cons.prems that show ?thesis
      by (cases "k < i") (auto simp: nth_Cons' split: if_splits)
  qed
  show ?case
  proof (cases "k = i")
    case True
    with Cons.prems have small: "\<bar>tickDelta c p\<bar> \<le> hover_threshold c" by simp
    have "fst (snd (smoothLoop c (Suc i) ps M d)) ! k = M ! k"
      by (rule Cons.IH) (simp add: True)
    with small show ?thesis
      by (simp add: Let_def tickDelta_def case_prod_beta)
  next
    case False
    from rest [OF False] have
      a: "fst (snd (smoothLoop c (Suc i) ps M' d')) ! k = M' ! k" for M' d'
      by (rule Cons.IH)
    show ?thesis
      using a False by (simp add: Let_def case_prod_beta)
  qed
qed

lemma easedDot_targetLift: "targetLift (easedDot c p) = targetLift p * hoverFalloff c"
  by (simp add: easedDot_def Let_def)

lemma easedDot_lift:
  "lift (easedDot c p) =
     (if \<bar>tickDelta c p\<bar> > hover_threshold c then lift p + tickDelta c p * hover_easing c
      else lift p)"
  by (simp add: easedDot_def tickDelta_def Let_def)

lemma smoothLiftUpdate_idle:
  "\<not> engineRuns s \<Longrightarrow> smoothLiftUpdate c s = s"
  by (auto simp: smoothLiftUpdate_def engineRuns_def)

lemma smoothLiftUpdate_dots:
  "engineRuns s \<Longrightarrow> dotPositions (smoothLiftUpdate c s) = map (easedDot c) (dotPositions s)"
  using smoothLoop_dots [of c 0 "dotPositions s" "instanceMatrix s" False]
  by (auto simp: smoothLiftUpdate_def engineRuns_def Let_def case_prod_beta)

lemma smoothLiftUpdate_matrix:
  "engineRuns s \<Longrightarrow>
   instanceMatrix (smoothLiftUpdate c s)
     = fst (snd (smoothLoop c 0 (dotPositions s) (instanceMatrix s) False))"
  by (auto simp: smoothLiftUpdate_def engineRuns_def Let_def case_prod_beta)

lemma smoothLiftUpdate_liftActive:
  "engineRuns s \<Longrightarrow>
   liftActive (smoothLiftUpdate c s)
     = (liftActive s \<and>
        (list_ex (\<lambda>p. \<bar>tickDelta c p\<bar> > hover_threshold c) (dotPositions s)
         \<or> hoveredInstanceId s \<noteq> None))"
  using smoothLoop_dirty [of c 0 "dotPositions s" "instanceMatrix s" False]
  by (auto simp: smoothLiftUpdate_def engineRuns_def Let_def case_prod_beta)

lemma smoothLiftUpdate_frame:
  "hoveredInstanceId (smoothLiftUpdate c s) = hoveredInstanceId s"
  "meshesBuilt (smoothLiftUpdate c s) = meshesBuilt s"
  "hoverCooldown (smoothLiftUpdate c s) = hoverCooldown s"
  by (auto simp: smoothLiftUpdate_def Let_def case_prod_beta)

lemma ticks_append:
  "ticks c (xs @ ys) s = (case ticks c xs s of Inl e \<Rightarrow> Inl e | Inr s' \<Rightarrow> ticks c ys s')"
  by (induction xs arbitrary: s) (auto split: sum.splits)

lemma ticks_snoc:
  "ticks c (replicate (Suc k) hit) s =
     (case ticks c (replicate k hit) s of Inl e \<Rightarrow> Inl e | Inr s' \<Rightarrow> animate c hit s')"
proof -
  have "replicate (Suc k) hit = replicate k hit @ [hit]"
    by (simp add: replicate_append_same)
  then show ?thesis
    by (simp add: ticks_append del: replicate_Suc split: sum.splits)
qed

lemma clear_held_None:
  "hoveredInstanceId s = None \<Longrightarrow> s\<lparr> hoveredInstanceId := None \<rparr> = s"
  by (cases s) simp

lemma animate_hover_free:
  assumes "hoveredInstanceId s = None"
  shows "animate c None s =
           Inr (smoothLiftUpdate c
                 (if meshesBuilt s then s\<lparr> hoverCooldown := max (hoverCooldown s - 1) 0 \<rparr>
                  else s))"
  using assms by (simp add: animate_def handleHover_def Let_def clear_held_None)

lemma hover_free_step:
  assumes "hoveredInstanceId s = None"
  obtains s' where "animate c None s = Inr s'" "hoveredInstanceId s' = None"
    "meshesBuilt s' = meshesBuilt s"
    "meshesBuilt s \<and> liftActive s \<Longrightarrow>
       map targetLift (dotPositions s') = map (\<lambda>p. targetLift p * hoverFalloff c) (dotPositions s)"
    "\<not> (meshesBuilt s \<and> liftActive s) \<Longrightarrow>
       dotPositions s' = dotPositions s \<and> instanceMatrix s' = instanceMatrix s
       \<and> liftActive s' = liftActive s"
    "liftActive s' \<Longrightarrow> liftActive s"
proof -
  let ?s0 = "if meshesBuilt s then s\<lparr> hoverCooldown := max (hoverCooldown s - 1) 0 \<rparr> else s"
  let ?s' = "smoothLiftUpdate c ?s0"
  have run: "animate c None s = Inr ?s'" by (rule animate_hover_free [OF assms])
  have h: "hoveredInstanceId ?s' = None" using assms by (simp add: smoothLiftUpdate_frame)
  have m: "meshesBuilt ?s' = meshesBuilt s" by (simp add: smoothLiftUpdate_frame)
  have act: "map targetLift (dotPositions ?s')
               = map (\<lambda>p. targetLift p * hoverFalloff c) (dotPositions s)"
    if "meshesBuilt s \<and> liftActive s"
  proof -
    from that have "engineRuns ?s0" by (simp add: engineRuns_def)
    from smoothLiftUpdate_dots [OF this, of c] that show ?thesis
      by (simp add: easedDot_targetLift)
  qed
  have idle: "dotPositions ?s' = dotPositions s \<and> instanceMatrix ?s' = instanceMatrix s
       \<and> liftActive ?s' = liftActive s"
    if "\<not> (meshesBuilt s \<and> liftActive s)"
  proof -
    from that assms have "\<not> engineRuns ?s0" by (auto simp: engineRuns_def)
    from smoothLiftUpdate_idle [OF this, of c] show ?thesis by auto
  qed
  have mono: "liftActive s" if "liftActive ?s'"
  proof (cases "engineRuns ?s0")
    case True
    from smoothLiftUpdate_liftActive [OF True, of c] that show ?thesis
      by (auto split: if_splits)
  next
    case False
    from smoothLiftUpdate_idle [OF False, of c] that show ?thesis
      by (auto split: if_splits)
  qed
  from run h m act idle mono that show thesis by blast
qed

lemma hover_free_run:
  assumes "meshesBuilt s" "hoveredInstanceId s = None"
  shows "\<exists>sk. ticks c (replicate k None) s = Inr sk \<and> hoveredInstanceId sk = None
     \<and> meshesBuilt sk
     \<and> (liftActive sk \<longrightarrow>
          map targetLift (dotPositions sk)
            = map (\<lambda>p. targetLift p * hoverFalloff c ^ k) (dotPositions s))"
proof (induction k)
  case 0
  then show ?case using assms by simp
next
  case (Suc k)
  then obtain sk where sk: "ticks c (replicate k None) s = Inr sk"
    "hoveredInstanceId sk = None" "meshesBuilt sk"
    "liftActive sk \<longrightarrow> map targetLift (dotPositions sk)
            = map (\<lambda>p. targetLift p * hoverFalloff c ^ k) (dotPositions s)" by blast
  from hover_free_step [OF sk(2), of c] obtain s' where s': "animate c None sk = Inr s'"
    "hoveredInstanceId s' = None" "meshesBuilt s' = meshesBuilt sk"
    "meshesBuilt sk \<and> liftActive sk \<Longrightarrow>
       map targetLift (dotPositions s') = map (\<lambda>p. targetLift p * hoverFalloff c) (dotPositions sk)"
    "liftActive s' \<Longrightarrow> liftActive sk" by metis
  have run: "ticks c (replicate (Suc k) None) s = Inr s'"
    using sk(1) s'(1) by (simp add: ticks_snoc del: replicate_Suc)
  have "map targetLift (dotPositions s')
          = map (\<lambda>p. targetLift p * hoverFalloff c ^ Suc k) (dotPositions s)"
    if a: "liftActive s'"
  proof -
    from a s'(5) have ak: "liftActive sk" by simp
    have "map targetLift (dotPositions s')
            = map (\<lambda>t. t * hoverFalloff c) (map targetLift (dotPositions sk))"
      using s'(4) ak sk(3) by (simp add: comp_def)
    also have "\<dots> = map (\<lambda>t. t * hoverFalloff c)
                        (map (\<lambda>p. targetLift p * hoverFalloff c ^ k) (dotPositions s))"
      using sk(4) ak by simp
    finally show ?thesis by (simp add: comp_def mult.assoc mult.commute)
  qed
  with run s'(2,3) sk(3) show ?case by auto
qed

text \<open>
  Claim C3, as the code has it. Take frames with no hit, starting with no id held. The
  frame after \<open>k\<close> such frames multiplies every \<open>targetLift\<close> by the falloff exactly when
  the engine is still active before it, and then every one of the \<open>k + 1\<close> frames has
  done so: \<open>targetLift\<close> is its first value times the falloff to the power \<open>k + 1\<close>. Once
  the engine is quiescent a frame leaves \<open>targetLift\<close> as it is.
\<close>

theorem targetLift_decays_only_while_active:
  assumes "meshesBuilt s" "hoveredInstanceId s = None"
  shows "targetLiftsAfter c (replicate (Suc k) None) s =
           (if activeAfter c (replicate k None) s
            then Inr (map (\<lambda>p. targetLift p * hoverFalloff c ^ Suc k) (dotPositions s))
            else targetLiftsAfter c (replicate k None) s)"
proof -
  from hover_free_run [OF assms, of c k] obtain sk where sk:
    "ticks c (replicate k None) s = Inr sk"
    "hoveredInstanceId sk = None" "meshesBuilt sk"
    "liftActive sk \<longrightarrow> map targetLift (dotPositions sk)
            = map (\<lambda>p. targetLift p * hoverFalloff c ^ k) (dotPositions s)" by blast
  from hover_free_step [OF sk(2), of c] obtain s' where s': "animate c None sk = Inr s'"
    "meshesBuilt sk \<and> liftActive sk \<Longrightarrow>
       map targetLift (dotPositions s') = map (\<lambda>p. targetLift p * hoverFalloff c) (dotPositions sk)"
    "\<not> (meshesBuilt sk \<and> liftActive sk) \<Longrightarrow>
       dotPositions s' = dotPositions sk \<and> instanceMatrix s' = instanceMatrix sk
       \<and> liftActive s' = liftActive sk" by metis
  have run: "ticks c (replicate (Suc k) None) s = Inr s'"
    using sk(1) s'(1) by (simp add: ticks_snoc del: replicate_Suc)
  show ?thesis
  proof (cases "liftActive sk")
    case True
    have "map targetLift (dotPositions s')
            = map (\<lambda>t. t * hoverFalloff c) (map targetLift (dotPositions sk))"
      using s'(2) True sk(3) by (simp add: comp_def)
    also have "\<dots> = map (\<lambda>t. t * hoverFalloff c)
                        (map (\<lambda>p. targetLift p * hoverFalloff c ^ k) (dotPositions s))"
      using sk(4) True by simp
    finally have "map targetLift (dotPositions s')
            = map (\<lambda>p. targetLift p * hoverFalloff c ^ Suc k) (dotPositions s)"
      by (simp add: comp_def mult.assoc mult.commute)
    with True run sk(1) show ?thesis
      by (simp add: targetLiftsAfter_def activeAfter_def del: replicate_Suc)
  next
    case False
    with s'(3) have "dotPositions s' = dotPositions sk" by simp
    with False run sk(1) show ?thesis
      by (simp add: targetLiftsAfter_def activeAfter_def del: replicate_Suc)
  qed
qed

lemma quiescent_run:
  assumes "\<not> liftActive s" "hoveredInstanceId s = None"
  shows "\<exists>sk. ticks c (replicate k None) s = Inr sk \<and> hoveredInstanceId sk = None
     \<and> \<not> liftActive sk \<and> dotPositions sk = dotPositions s
     \<and> instanceMatrix sk = instanceMatrix s"
proof (induction k)
  case 0
  then show ?case using assms by simp
next
  case (Suc k)
  then obtain sk where sk: "ticks c (replicate k None) s = Inr sk"
    "hoveredInstanceId sk = None" "\<not> liftActive sk" "dotPositions sk = dotPositions s"
    "instanceMatrix sk = instanceMatrix s" by blast
  from hover_free_step [OF sk(2), of c] obtain s' where s': "animate c None sk = Inr s'"
    "hoveredInstanceId s' = None"
    "\<not> (meshesBuilt sk \<and> liftActive sk) \<Longrightarrow>
       dotPositions s' = dotPositions sk \<and> instanceMatrix s' = instanceMatrix sk
       \<and> liftActive s' = liftActive sk" by metis
  have run: "ticks c (replicate (Suc k) None) s = Inr s'"
    using sk(1) s'(1) by (simp add: ticks_snoc del: replicate_Suc)
  from s'(3) sk(3) have "dotPositions s' = dotPositions sk \<and> instanceMatrix s' = instanceMatrix sk
       \<and> liftActive s' = liftActive sk" by simp
  with run s'(2) sk show ?case by auto
qed

text \<open>
  Claim C10. In a pass of the lift easing, a dot whose \<open>delta\<close> (the decayed
  \<open>targetLift\<close> minus \<open>lift\<close>) is at most the threshold in absolute value keeps its
  \<open>lift\<close> and its instance transform. When a pass turns the engine quiescent, every dot
  is left with \<open>targetLift\<close> and \<open>lift\<close> at most the threshold apart; and from a quiescent
  state any number of frames without a hit leaves every dot and every transform as it is.
\<close>

theorem small_delta_leaves_dot_untouched:
  "(i < length (dotPositions s)
      \<and> \<bar>targetLift (dotPositions s ! i) * hoverFalloff c - lift (dotPositions s ! i)\<bar>
          \<le> hover_threshold c
    \<longrightarrow> lift (dotPositions (smoothLiftUpdate c s) ! i) = lift (dotPositions s ! i)
      \<and> instanceMatrix (smoothLiftUpdate c s) ! i = instanceMatrix s ! i)
   \<and> (liftActive s \<and> \<not> liftActive (smoothLiftUpdate c s)
    \<longrightarrow> list_all (\<lambda>p. \<bar>targetLift p - lift p\<bar> \<le> hover_threshold c)
          (dotPositions (smoothLiftUpdate c s)))
   \<and> (\<not> liftActive s \<and> hoveredInstanceId s = None
    \<longrightarrow> dotsAfter c (replicate k None) s = Inr (dotPositions s, instanceMatrix s))"
proof (intro conjI impI)
  assume a: "i < length (dotPositions s)
      \<and> \<bar>targetLift (dotPositions s ! i) * hoverFalloff c - lift (dotPositions s ! i)\<bar>
          \<le> hover_threshold c"
  then have small: "\<bar>tickDelta c (dotPositions s ! i)\<bar> \<le> hover_threshold c"
    by (simp add: tickDelta_def)
  show "lift (dotPositions (smoothLiftUpdate c s) ! i) = lift (dotPositions s ! i)"
  proof (cases "engineRuns s")
    case True
    from smoothLiftUpdate_dots [OF True, of c] a small show ?thesis
      by (simp add: easedDot_lift)
  next
    case False
    then show ?thesis by (simp add: smoothLiftUpdate_idle)
  qed
  show "instanceMatrix (smoothLiftUpdate c s) ! i = instanceMatrix s ! i"
  proof (cases "engineRuns s")
    case True
    have "fst (snd (smoothLoop c 0 (dotPositions s) (instanceMatrix s) False)) ! i
            = instanceMatrix s ! i"
      by (rule smoothLoop_matrix_keep) (use small in simp)
    with smoothLiftUpdate_matrix [OF True, of c] show ?thesis by simp
  next
    case False
    then show ?thesis by (simp add: smoothLiftUpdate_idle)
  qed
next
  assume q: "liftActive s \<and> \<not> liftActive (smoothLiftUpdate c s)"
  have run: "engineRuns s"
  proof (rule ccontr)
    assume "\<not> engineRuns s"
    then have "smoothLiftUpdate c s = s" by (rule smoothLiftUpdate_idle)
    with q show False by simp
  qed
  from smoothLiftUpdate_liftActive [OF run, of c] q
  have calm: "\<not> list_ex (\<lambda>p. \<bar>tickDelta c p\<bar> > hover_threshold c) (dotPositions s)"
    by auto
  have "\<bar>targetLift (easedDot c p) - lift (easedDot c p)\<bar> \<le> hover_threshold c"
    if "p \<in> set (dotPositions s)" for p
  proof -
    from calm that have le: "\<bar>tickDelta c p\<bar> \<le> hover_threshold c"
      by (auto simp: list_ex_iff not_less)
    then show ?thesis
      by (simp add: easedDot_lift easedDot_targetLift) (simp add: tickDelta_def)
  qed
  then show "list_all (\<lambda>p. \<bar>targetLift p - lift p\<bar> \<le> hover_threshold c)
          (dotPositions (smoothLiftUpdate c s))"
    by (simp add: smoothLiftUpdate_dots [OF run] list_all_iff)
next
  assume "\<not> liftActive s \<and> hoveredInstanceId s = None"
  then have "\<not> liftActive s" "hoveredInstanceId s = None" by simp_all
  from quiescent_run [OF this, of c k]
  show "dotsAfter c (replicate k None) s = Inr (dotPositions s, instanceMatrix s)"
    by (auto simp: dotsAfter_def)
qed

lemmas example_defs =
  quickConfig_def fineConfig_def exampleConfig_def oneDotState_def createDots_def makeDot_def
  initialState_def liftedState_def pausedState_def restState_def

lemmas engine_defs =
  animate_def handleHover_def smoothLiftUpdate_def Let_def hoverInfluence_def
  dotMatrixAt_def getMapWorldX_def getCylinderCenterY_def

lemma quick_first_tick: "ticks quickConfig [Some 0] oneDotState = Inr liftedState"
  by (simp add: example_defs engine_defs)

lemma quick_release: "handleHover quickConfig None liftedState = Inr pausedState"
  by (simp add: example_defs engine_defs)

lemma quick_rest: "smoothLiftUpdate quickConfig pausedState = restState"
  by (simp add: example_defs engine_defs)

lemma quick_second_tick: "animate quickConfig None liftedState = Inr restState"
  by (simp add: animate_def quick_release quick_rest)

lemma quick_third_tick: "animate quickConfig None restState = Inr restState"
  by (simp add: example_defs engine_defs)

text \<open>
  Claim C3 as stated fails. One dot, falloff \<open>1/2\<close>: after the frame that hovers it
  \<open>targetLift\<close> is \<open>1/2\<close>; the first frame without hover halves it to \<open>1/4\<close> and turns
  the engine quiescent; the second frame without hover leaves it at \<open>1/4\<close>, where the
  claim has \<open>1/8\<close>.
\<close>

theorem targetLift_frozen_when_quiescent_counterexample:
  "targetLiftsAfter quickConfig [Some 0] oneDotState = Inr [1 / 2]
   \<and> targetLiftsAfter quickConfig [Some 0, None] oneDotState = Inr [1 / 4]
   \<and> targetLiftsAfter quickConfig [Some 0, None, None] oneDotState = Inr [1 / 4]
   \<and> hoverFalloff quickConfig = 1 / 2"
proof -
  have t1: "animate quickConfig (Some 0) oneDotState = Inr liftedState"
    using quick_first_tick by (simp split: sum.splits)
  show ?thesis
    using t1 quick_second_tick quick_third_tick
    by (simp add: targetLiftsAfter_def) (simp add: example_defs)
qed

theorem targetLift_decays_only_while_active_witness:
  "meshesBuilt pausedState \<and> hoveredInstanceId pausedState = None
   \<and> activeAfter fineConfig (replicate 1 None) pausedState
   \<and> targetLiftsAfter fineConfig (replicate (Suc 1) None) pausedState = Inr [1 / 8]
   \<and> \<not> activeAfter quickConfig (replicate 1 None) pausedState
   \<and> targetLiftsAfter quickConfig (replicate (Suc 1) None) pausedState
        = targetLiftsAfter quickConfig (replicate 1 None) pausedState"
proof -
  have a: "activeAfter fineConfig (replicate 1 None) pausedState"
    by (simp add: activeAfter_def example_defs engine_defs)
  have b: "\<not> activeAfter quickConfig (replicate 1 None) pausedState"
    by (simp add: activeAfter_def example_defs engine_defs)
  have m: "meshesBuilt pausedState" "hoveredInstanceId pausedState = None"
    by (simp_all add: example_defs)
  from targetLift_decays_only_while_active [OF m, of fineConfig 1] a
  have c: "targetLiftsAfter fineConfig (replicate (Suc 1) None) pausedState = Inr [1 / 8]"
    by (simp add: example_defs power2_eq_square del: replicate_Suc replicate.simps)
  from targetLift_decays_only_while_active [OF m, of quickConfig 1] b
  have d: "targetLiftsAfter quickConfig (replicate (Suc 1) None) pausedState
        = targetLiftsAfter quickConfig (replicate 1 None) pausedState"
    by (simp del: replicate_Suc replicate.simps)
  from m a b c d show ?thesis by blast
qed

theorem small_delta_leaves_dot_untouched_witness:
  "0 < length (dotPositions pausedState)
   \<and> \<bar>targetLift (dotPositions pausedState ! 0) * hoverFalloff quickConfig
        - lift (dotPositions pausedState ! 0)\<bar> \<le> hover_threshold quickConfig
   \<and> lift (dotPositions (smoothLiftUpdate quickConfig pausedState) ! 0) = 1 / 8
   \<and> instanceMatrix (smoothLiftUpdate quickConfig pausedState) ! 0 = (- 0.8, - 0.525, 0)
   \<and> liftActive pausedState \<and> \<not> liftActive (smoothLiftUpdate quickConfig pausedState)
   \<and> list_all (\<lambda>p. \<bar>targetLift p - lift p\<bar> \<le> hover_threshold quickConfig)
        (dotPositions (smoothLiftUpdate quickConfig pausedState))
   \<and> \<not> liftActive restState \<and> hoveredInstanceId restState = None
   \<and> dotsAfter quickConfig (replicate 1000 None) restState
        = Inr ([\<lparr> dot_x = 0, dot_y = 0, lift = 1 / 8, targetLift = 1 / 4,
                   isHotspot = False, hotspotIndex = - 1 \<rparr>], [(- 0.8, - 0.525, 0)])"
proof -
  have h1: "0 < length (dotPositions pausedState)
   \<and> \<bar>targetLift (dotPositions pausedState ! 0) * hoverFalloff quickConfig
        - lift (dotPositions pausedState ! 0)\<bar> \<le> hover_threshold quickConfig"
    by (simp add: example_defs)
  have h2: "liftActive pausedState \<and> \<not> liftActive (smoothLiftUpdate quickConfig pausedState)"
    by (simp add: quick_rest) (simp add: example_defs)
  have h3: "\<not> liftActive restState \<and> hoveredInstanceId restState = None"
    by (simp add: example_defs)
  have v: "lift (dotPositions pausedState ! 0) = 1 / 8"
    "instanceMatrix pausedState ! 0 = (- 0.8, - 0.525, 0)"
    "dotPositions restState = [\<lparr> dot_x = 0, dot_y = 0, lift = 1 / 8, targetLift = 1 / 4,
                   isHotspot = False, hotspotIndex = - 1 \<rparr>]"
    "instanceMatrix restState = [(- 0.8, - 0.525, 0)]"
    by (simp_all add: example_defs)
  from small_delta_leaves_dot_untouched [where i = 0 and s = pausedState and c = quickConfig and k = 1000] h1 h2
  have c1: "lift (dotPositions (smoothLiftUpdate quickConfig pausedState) ! 0) = 1 / 8
   \<and> instanceMatrix (smoothLiftUpdate quickConfig pausedState) ! 0 = (- 0.8, - 0.525, 0)
   \<and> list_all (\<lambda>p. \<bar>targetLift p - lift p\<bar> \<le> hover_threshold quickConfig)
        (dotPositions (smoothLiftUpdate quickConfig pausedState))"
    using v(1,2) by simp
  from small_delta_leaves_dot_untouched [where i = 0 and s = restState and c = quickConfig and k = 1000] h3
  have c2: "dotsAfter quickConfig (replicate 1000 None) restState
        = Inr ([\<lparr> dot_x = 0, dot_y = 0, lift = 1 / 8, targetLift = 1 / 4,
                   isHotspot = False, hotspotIndex = - 1 \<rparr>], [(- 0.8, - 0.525, 0)])"
    using v(3,4) by simp
  from h1 h2 h3 c1 c2 show ?thesis by blast
qed

section \<open>Hover influence\<close>

lemma hoverInfluence_targetLift:
  assumes "0 < hover_radius c"
  shows "targetLift (hoverInfluence c ctr p) =
     (if planarDistance c p ctr < 1.4 * hover_radius c
      then max (targetLift p)
             (hover_maxLift c * exp (- ((planarDistance c p ctr / hover_radius c)\<^sup>2)))
      else targetLift p)"
proof -
  define d2 where "d2 = ((dot_x p - dot_x ctr) * SPACING c) * ((dot_x p - dot_x ctr) * SPACING c)
        + ((dot_y p - dot_y ctr) * SPACING c) * ((dot_y p - dot_y ctr) * SPACING c)"
  define r where "r = hover_radius c"
  have d: "planarDistance c p ctr = sqrt d2" by (simp add: planarDistance_def d2_def)
  have nn: "0 \<le> d2" by (simp add: d2_def)
  have r: "0 < r" using assms by (simp add: r_def)
  define outer where "outer = r * 1.4"
  have op: "0 < outer" using r by (simp add: outer_def)
  have "sqrt (outer * outer) = \<bar>outer\<bar>" by (rule real_sqrt_abs2)
  with op have so: "sqrt (outer * outer) = outer" by simp
  have "(d2 < outer * outer) = (sqrt d2 < sqrt (outer * outer))"
    by (simp only: real_sqrt_less_iff)
  with so have "(d2 < outer * outer) = (sqrt d2 < outer)" by simp
  then have cmp: "(d2 < (r * 1.4) * (r * 1.4)) = (sqrt d2 < 1.4 * r)"
    by (simp only: outer_def mult.commute)
  have ex: "exp (- (sqrt d2 * (1 / r)) * (sqrt d2 * (1 / r))) * hover_maxLift c
              = hover_maxLift c * exp (- ((sqrt d2 / r)\<^sup>2))"
    by (simp add: power2_eq_square)
  have raw: "targetLift (hoverInfluence c ctr p) =
      (if d2 < (r * 1.4) * (r * 1.4)
       then max (targetLift p) (exp (- (sqrt d2 * (1 / r)) * (sqrt d2 * (1 / r))) * hover_maxLift c)
       else targetLift p)"
    by (simp add: hoverInfluence_def Let_def d2_def r_def)
  have goal: "targetLift (hoverInfluence c ctr p) =
      (if sqrt d2 < 1.4 * r
       then max (targetLift p) (hover_maxLift c * exp (- ((sqrt d2 / r)\<^sup>2)))
       else targetLift p)"
  proof (cases "d2 < (r * 1.4) * (r * 1.4)")
    case True
    with cmp have "sqrt d2 < 1.4 * r" by blast
    moreover from raw True have "targetLift (hoverInfluence c ctr p)
        = max (targetLift p)
            (exp (- (sqrt d2 * (1 / r)) * (sqrt d2 * (1 / r))) * hover_maxLift c)"
      by (simp only: if_True)
    ultimately show ?thesis by (simp only: ex if_True)
  next
    case False
    with cmp have "\<not> sqrt d2 < 1.4 * r" by blast
    moreover from raw False have "targetLift (hoverInfluence c ctr p) = targetLift p"
      by (simp only: if_False)
    ultimately show ?thesis by (simp only: if_False)
  qed
  then show ?thesis by (simp only: d r_def)
qed

lemma hoverInfluence_frame:
  "lift (hoverInfluence c ctr p) = lift p"
  "dot_x (hoverInfluence c ctr p) = dot_x p"
  "dot_y (hoverInfluence c ctr p) = dot_y p"
  "targetLift p \<le> targetLift (hoverInfluence c ctr p)"
  by (simp_all add: hoverInfluence_def Let_def)

lemma handleHover_dots:
  assumes "handleHover c hit s = Inr s'" "meshesBuilt s" "hoveredInstanceId s' = Some ctr"
    "dotPositions s \<noteq> []"
  shows "ctr < length (dotPositions s)
     \<and> dotPositions s' = map (hoverInfluence c (dotPositions s ! ctr)) (dotPositions s)"
  using assms
  by (auto simp: handleHover_def Let_def split: option.splits if_splits)

text \<open>
  Claim C4, as the code has it. After a hover test that leaves dot \<open>ctr\<close> held, with a
  positive configured radius \<open>r\<close>: a dot at planar distance \<open>d\<close> strictly less than
  \<open>1.4 r\<close> from the held dot has \<open>targetLift\<close> set to the maximum of its old value and
  \<open>maxLift * exp (- (d / r)\<^sup>2)\<close>; a dot at distance \<open>1.4 r\<close> or more keeps its
  \<open>targetLift\<close>.
\<close>

theorem hover_lifts_dots_strictly_inside:
  assumes "meshesBuilt s" "handleHover c hit s = Inr s'" "hoveredInstanceId s' = Some ctr"
    "i < length (dotPositions s)" "0 < hover_radius c"
  shows "ctr < length (dotPositions s)
     \<and> targetLift (dotPositions s' ! i) =
        (if planarDistance c (dotPositions s ! i) (dotPositions s ! ctr) < 1.4 * hover_radius c
         then max (targetLift (dotPositions s ! i))
                (hover_maxLift c *
                 exp (- ((planarDistance c (dotPositions s ! i) (dotPositions s ! ctr)
                          / hover_radius c)\<^sup>2)))
         else targetLift (dotPositions s ! i))"
proof -
  from assms(4) have ne: "dotPositions s \<noteq> []" by auto
  from handleHover_dots [OF assms(2) assms(1) assms(3) ne]
  have ctr: "ctr < length (dotPositions s)"
    and ds: "dotPositions s' = map (hoverInfluence c (dotPositions s ! ctr)) (dotPositions s)"
    by simp_all
  from ds assms(4) have "dotPositions s' ! i
      = hoverInfluence c (dotPositions s ! ctr) (dotPositions s ! i)" by simp
  with ctr show ?thesis by (simp add: hoverInfluence_targetLift [OF assms(5)])
qed

lemma planarDistance_self: "planarDistance c p p = 0"
  by (simp add: planarDistance_def)

text \<open>The held dot itself, at distance \<open>0\<close>, ends at exactly \<open>maxLift\<close> when it was not above it.\<close>

lemma hovered_dot_gets_maxLift:
  assumes "meshesBuilt s" "handleHover c hit s = Inr s'" "hoveredInstanceId s' = Some ctr"
    "dotPositions s \<noteq> []" "0 < hover_radius c"
    "targetLift (dotPositions s ! ctr) \<le> hover_maxLift c"
  shows "targetLift (dotPositions s' ! ctr) = hover_maxLift c"
proof -
  from handleHover_dots [OF assms(2) assms(1) assms(3) assms(4)]
  have ctr: "ctr < length (dotPositions s)"
    and ds: "dotPositions s' = map (hoverInfluence c (dotPositions s ! ctr)) (dotPositions s)"
    by simp_all
  from ds ctr have "dotPositions s' ! ctr
      = hoverInfluence c (dotPositions s ! ctr) (dotPositions s ! ctr)" by simp
  with assms(5,6) show ?thesis
    by (simp add: hoverInfluence_targetLift [OF assms(5)] planarDistance_self)
qed

lemma sqrt_49: "sqrt 49 = 7"
  by (rule real_sqrt_unique) simp_all

lemma sqrt_25: "sqrt 25 = 5"
  by (rule real_sqrt_unique) simp_all

lemmas threeDot_defs =
  threeDotState_def edgeConfig_def exampleConfig_def createDots_def makeDot_def initialState_def

lemma threeDot_hover:
  "targetLiftsAfterHover edgeConfig (Some 0) threeDotState = Inr [1, exp (- 1), 0]"
  by (simp add: targetLiftsAfterHover_def handleHover_def hoverInfluence_def Let_def
        threeDot_defs sqrt_25)

text \<open>
  Claim C4 as stated fails on the boundary: with radius \<open>5\<close>, the dot at distance exactly
  \<open>7 = 1.4 * 5\<close> keeps \<open>targetLift = 0\<close>, where the claim's formula gives a positive
  value. The dot at distance \<open>5\<close> gets \<open>exp (- 1)\<close>, the held dot \<open>1\<close>.
\<close>

theorem hover_edge_counterexample:
  "planarDistance edgeConfig (dotPositions threeDotState ! 2) (dotPositions threeDotState ! 0)
     = 1.4 * hover_radius edgeConfig
   \<and> targetLiftsAfterHover edgeConfig (Some 0) threeDotState = Inr [1, exp (- 1), 0]
   \<and> max (targetLift (dotPositions threeDotState ! 2))
       (hover_maxLift edgeConfig * exp (- ((1.4 * hover_radius edgeConfig
                                              / hover_radius edgeConfig)\<^sup>2))) \<noteq> 0"
proof -
  have a: "planarDistance edgeConfig (dotPositions threeDotState ! 2) (dotPositions threeDotState ! 0)
     = 1.4 * hover_radius edgeConfig"
    by (simp add: planarDistance_def threeDot_defs sqrt_49)
  have "0 < exp (- ((1.4 * hover_radius edgeConfig / hover_radius edgeConfig)\<^sup>2))"
    by (rule exp_gt_zero)
  then have c: "max (targetLift (dotPositions threeDotState ! 2))
       (hover_maxLift edgeConfig * exp (- ((1.4 * hover_radius edgeConfig
                                              / hover_radius edgeConfig)\<^sup>2))) \<noteq> 0"
    by (simp add: threeDot_defs max_def)
  from a threeDot_hover c show ?thesis by blast
qed

theorem hover_lifts_dots_strictly_inside_witness:
  "meshesBuilt threeDotState \<and> 1 < length (dotPositions threeDotState)
   \<and> 0 < hover_radius edgeConfig
   \<and> (\<exists>s'. handleHover edgeConfig (Some 0) threeDotState = Inr s'
         \<and> hoveredInstanceId s' = Some 0
         \<and> targetLift (dotPositions s' ! 1) = exp (- 1))"
proof -
  have m: "meshesBuilt threeDotState" and l: "1 < length (dotPositions threeDotState)"
    and r: "0 < hover_radius edgeConfig"
    by (simp_all add: threeDot_defs)
  obtain s' where run: "handleHover edgeConfig (Some 0) threeDotState = Inr s'"
    and held: "hoveredInstanceId s' = Some 0"
    by (simp add: handleHover_def Let_def threeDot_defs)
  have d: "planarDistance edgeConfig (dotPositions threeDotState ! 1)
             (dotPositions threeDotState ! 0) = 5"
    by (simp add: planarDistance_def threeDot_defs sqrt_25)
  have v: "targetLift (dotPositions threeDotState ! 1) = 0" "hover_radius edgeConfig = 5"
    "hover_maxLift edgeConfig = 1"
    by (simp_all add: threeDot_defs)
  from hover_lifts_dots_strictly_inside [OF m run held l r]
  have "targetLift (dotPositions s' ! 1) = exp (- 1)"
    unfolding d v by simp
  with run held have "handleHover edgeConfig (Some 0) threeDotState = Inr s'
         \<and> hoveredInstanceId s' = Some 0
         \<and> targetLift (dotPositions s' ! 1) = exp (- 1)"
    by (intro conjI)
  then have "\<exists>s'. handleHover edgeConfig (Some 0) threeDotState = Inr s'
         \<and> hoveredInstanceId s' = Some 0
         \<and> targetLift (dotPositions s' ! 1) = exp (- 1)"
    by (rule exI)
  with m l r show ?thesis by (intro conjI)
qed

section \<open>Non-negative lifts\<close>

lemma easedDot_nonneg:
  assumes "0 \<le> hoverFalloff c" "0 \<le> hover_easing c" "hover_easing c \<le> 1"
    "0 \<le> lift p" "0 \<le> targetLift p"
  shows "0 \<le> lift (easedDot c p) \<and> 0 \<le> targetLift (easedDot c p)"
proof -
  let ?t = "targetLift p * hoverFalloff c"
  have t: "0 \<le> ?t" using assms by simp
  have "lift p + (?t - lift p) * hover_easing c
          = lift p * (1 - hover_easing c) + ?t * hover_easing c"
    by (simp add: algebra_simps)
  moreover have "0 \<le> lift p * (1 - hover_easing c)" using assms by simp
  moreover have "0 \<le> ?t * hover_easing c" using t assms by simp
  ultimately have "0 \<le> lift p + (?t - lift p) * hover_easing c" by simp
  with t assms(4) show ?thesis
    by (simp add: easedDot_lift easedDot_targetLift tickDelta_def)
qed

lemma smoothLiftUpdate_nonneg:
  assumes "0 \<le> hoverFalloff c" "0 \<le> hover_easing c" "hover_easing c \<le> 1"
    "liftsNonNegative s"
  shows "liftsNonNegative (smoothLiftUpdate c s)"
proof (cases "engineRuns s")
  case True
  from assms show ?thesis
    by (auto simp: liftsNonNegative_def smoothLiftUpdate_dots [OF True] list_all_iff
             easedDot_nonneg)
next
  case False
  with assms(4) show ?thesis by (simp add: smoothLiftUpdate_idle)
qed

lemma handleHover_nonneg:
  assumes "liftsNonNegative s" "handleHover c hit s = Inr s'"
  shows "liftsNonNegative s'"
proof -
  have keep: "0 \<le> lift (hoverInfluence c ctr p) \<and> 0 \<le> targetLift (hoverInfluence c ctr p)"
    if "0 \<le> lift p \<and> 0 \<le> targetLift p" for ctr p
    using that hoverInfluence_frame(4) [of p c ctr] by (simp add: hoverInfluence_frame(1))
  from assms show ?thesis
    by (auto simp: handleHover_def Let_def liftsNonNegative_def list_all_iff keep
             split: option.splits if_splits)
qed

lemma bindHotspot_nonneg:
  assumes "liftsNonNegative s" "bindHotspot c ty hh i hs s = Inr s'"
  shows "liftsNonNegative s'"
  using assms
  by (auto simp: bindHotspot_def Let_def liftsNonNegative_def list_all_length nth_list_update
           split: prod.splits if_splits)

lemma createDots_nonneg: "liftsNonNegative (createDots c dots initialState)"
  by (simp add: liftsNonNegative_def createDots_def initialState_def makeDot_def list_all_iff)

text \<open>
  Claim C9. With a falloff that is not negative and an easing factor in \<open>[0, 1]\<close>, every
  dot's \<open>lift\<close> and \<open>targetLift\<close> stay non-negative through any sequence of binds, hover
  tests and easing passes that runs to its end; the dots as created have both at \<open>0\<close>.
\<close>

theorem lifts_stay_non_negative:
  assumes "0 \<le> hoverFalloff c" "0 \<le> hover_easing c" "hover_easing c \<le> 1"
    "liftsNonNegative s" "runOps c ops s = Inr s'"
  shows "liftsNonNegative s'"
  using assms(4,5)
proof (induction ops arbitrary: s)
  case Nil
  then show ?case by simp
next
  case (Cons op ops)
  from Cons.prems(2) obtain s1 where s1: "applyOp c op s = Inr s1" "runOps c ops s1 = Inr s'"
    by (auto split: sum.splits)
  have "liftsNonNegative s1"
  proof (cases op)
    case (Bind ty hh i hs)
    with s1(1) Cons.prems(1) show ?thesis by (auto intro: bindHotspot_nonneg)
  next
    case (Hover hit)
    with s1(1) Cons.prems(1) show ?thesis by (auto intro: handleHover_nonneg)
  next
    case Ease
    with s1(1) Cons.prems(1) assms(1-3) show ?thesis
      by (auto intro: smoothLiftUpdate_nonneg)
  qed
  then show ?case using s1(2) by (rule Cons.IH)
qed

theorem lifts_stay_non_negative_witness:
  "0 \<le> hoverFalloff exampleConfig \<and> 0 \<le> hover_easing exampleConfig
   \<and> hover_easing exampleConfig \<le> 1 \<and> liftsNonNegative oneDotState
   \<and> (\<exists>s'. runOps exampleConfig
              [Bind ''global'' 0.66 0 exampleHotspot, Hover (Some 0), Ease, Hover None, Ease]
              oneDotState = Inr s'
         \<and> liftsNonNegative s' \<and> map lift (dotPositions s') = [7 / 32])"
proof -
  have h: "0 \<le> hoverFalloff exampleConfig" "0 \<le> hover_easing exampleConfig"
    "hover_easing exampleConfig \<le> 1"
    by (simp_all add: exampleConfig_def)
  have n: "liftsNonNegative oneDotState"
    unfolding oneDotState_def by (rule createDots_nonneg)
  obtain s' where run: "runOps exampleConfig
              [Bind ''global'' 0.66 0 exampleHotspot, Hover (Some 0), Ease, Hover None, Ease]
              oneDotState = Inr s'" and v: "map lift (dotPositions s') = [7 / 32]"
    by (simp add: bindHotspot_def latLonToMapXY_def exampleHotspot_def
          handleHover_def smoothLiftUpdate_def hoverInfluence_def Let_def dotMatrixAt_def
          getMapWorldX_def getCylinderCenterY_def
          exampleConfig_def oneDotState_def createDots_def makeDot_def initialState_def)
  have p: "liftsNonNegative s'" by (rule lifts_stay_non_negative [OF h n run])
  from run p v have "runOps exampleConfig
              [Bind ''global'' 0.66 0 exampleHotspot, Hover (Some 0), Ease, Hover None, Ease]
              oneDotState = Inr s'
         \<and> liftsNonNegative s' \<and> map lift (dotPositions s') = [7 / 32]"
    by (intro conjI)
  then have "\<exists>s'. runOps exampleConfig
              [Bind ''global'' 0.66 0 exampleHotspot, Hover (Some 0), Ease, Hover None, Ease]
              oneDotState = Inr s'
         \<and> liftsNonNegative s' \<and> map lift (dotPositions s') = [7 / 32]"
    by (rule exI)
  with h n show ?thesis by (intro conjI)
qed

section \<open>Sequential chain\<close>

lemma getHotspotWorldPosition_bound:
  "dotIndex hs < length ds \<Longrightarrow> getHotspotWorldPosition c ds hs = Inr (hotspotPos c ds hs)"
  by (simp add: getHotspotWorldPosition_def hotspotPos_def Let_def)

lemma length_legSamples: "length (legSamples i n) = (if i = 0 then Suc n else n)"
  by (simp add: legSamples_def)

lemma upt_0_Suc_Cons: "[0 ..< Suc k] = 0 # map Suc [0 ..< k]"
  unfolding map_Suc_upt by (rule upt_conv_Cons) simp

lemma collectLegs_points:
  assumes "list_all (\<lambda>h. dotIndex h < length ds) hs"
  shows "collectLegs c ds i hs =
     Inr (concat (map (\<lambda>j. map (arcPoint (hotspotPos c ds (hs ! j)) (hotspotPos c ds (hs ! Suc j))
                                   (line_arcHeight (connectionLine c))
                                   (segmentsOf (connectionLine c)))
                              (legSamples (i + j) (segmentsOf (connectionLine c))))
                      [0 ..< length hs - 1]))"
  using assms
proof (induction c ds i hs rule: collectLegs.induct)
  case (1 c ds i h1 h2 rest)
  from "1.prems" have b: "dotIndex h1 < length ds" "dotIndex h2 < length ds"
    and r: "list_all (\<lambda>h. dotIndex h < length ds) (h2 # rest)" by simp_all
  have p1: "getHotspotWorldPosition c ds h1 = Inr (hotspotPos c ds h1)"
    and p2: "getHotspotWorldPosition c ds h2 = Inr (hotspotPos c ds h2)"
    using b by (simp_all add: getHotspotWorldPosition_bound)
  from "1.IH" [OF p1 p2 r]
  have ih: "collectLegs c ds (Suc i) (h2 # rest) =
     Inr (concat (map (\<lambda>j. map (arcPoint (hotspotPos c ds ((h2 # rest) ! j))
                                    (hotspotPos c ds ((h2 # rest) ! Suc j))
                                   (line_arcHeight (connectionLine c))
                                   (segmentsOf (connectionLine c)))
                              (legSamples (Suc i + j) (segmentsOf (connectionLine c))))
                      [0 ..< length (h2 # rest) - 1]))" .
  have idx: "[0 ..< length (h1 # h2 # rest) - 1] = 0 # map Suc [0 ..< length (h2 # rest) - 1]"
    using upt_0_Suc_Cons [of "length rest"] by simp
  show ?case
    unfolding idx by (simp add: p1 p2 ih comp_def del: upt_Suc)
qed simp_all

lemma length_concat_legs:
  "length (concat (map (\<lambda>j. map (f j) (legSamples (i + j) n)) [0 ..< m]))
     = m * n + (if i = 0 \<and> 0 < m then 1 else 0)"
proof (induction m)
  case 0
  then show ?case by simp
next
  case (Suc m)
  then show ?case by (auto simp: length_legSamples)
qed

lemma segmentsOf_nat: "line_segments lc = real n \<Longrightarrow> 1 \<le> n \<Longrightarrow> segmentsOf lc = n"
  by (simp add: segmentsOf_def)

text \<open>
  Claim C5. For at least two bound hotspots and a configured segment count \<open>n\<close> of at
  least \<open>1\<close>, the sampled point list of the sequential chain has
  \<open>(n + 1) + (N - 2) * n\<close> points: leg \<open>0\<close> contributes the points of sample indices
  \<open>0 .. n\<close>, every later leg those of sample indices \<open>1 .. n\<close>.
\<close>

theorem sequential_chain_point_count:
  assumes "2 \<le> length (hotspotData s)" "hotspotsBound s"
    "line_segments (connectionLine c) = real n" "1 \<le> n"
  shows "\<exists>points. collectHotspotArcPoints c s = Inr points
     \<and> length points = (n + 1) + (length (hotspotData s) - 2) * n
     \<and> points =
         concat (map (\<lambda>i. map (arcPoint (hotspotPos c (dotPositions s) (hotspotData s ! i))
                                   (hotspotPos c (dotPositions s) (hotspotData s ! Suc i))
                                   (line_arcHeight (connectionLine c)) n)
                              (if i = 0 then [0 ..< Suc n] else [1 ..< Suc n]))
                   [0 ..< length (hotspotData s) - 1])"
proof -
  have seg: "segmentsOf (connectionLine c) = n" using assms(3,4) by (rule segmentsOf_nat)
  from assms(2) have b: "list_all (\<lambda>h. dotIndex h < length (dotPositions s)) (hotspotData s)"
    by (simp add: hotspotsBound_def)
  let ?pts = "concat (map (\<lambda>j. map (arcPoint (hotspotPos c (dotPositions s) (hotspotData s ! j))
                                   (hotspotPos c (dotPositions s) (hotspotData s ! Suc j))
                                   (line_arcHeight (connectionLine c)) n)
                              (legSamples (0 + j) n))
                   [0 ..< length (hotspotData s) - 1])"
  have run: "collectHotspotArcPoints c s = Inr ?pts"
    using collectLegs_points [OF b, of c 0] by (simp add: collectHotspotArcPoints_def seg)
  have "length ?pts = (length (hotspotData s) - 1) * n
          + (if (0::nat) = 0 \<and> 0 < length (hotspotData s) - 1 then 1 else 0)"
    by (rule length_concat_legs)
  also have "\<dots> = (n + 1) + (length (hotspotData s) - 2) * n"
  proof -
    from assms(1) have "length (hotspotData s) = Suc (Suc (length (hotspotData s) - 2))"
      by simp
    then obtain m where m: "length (hotspotData s) = Suc (Suc m)" ..
    then show ?thesis by simp
  qed
  finally have len: "length ?pts = (n + 1) + (length (hotspotData s) - 2) * n" .
  have shape: "?pts =
         concat (map (\<lambda>i. map (arcPoint (hotspotPos c (dotPositions s) (hotspotData s ! i))
                                   (hotspotPos c (dotPositions s) (hotspotData s ! Suc i))
                                   (line_arcHeight (connectionLine c)) n)
                              (if i = 0 then [0 ..< Suc n] else [1 ..< Suc n]))
                   [0 ..< length (hotspotData s) - 1])"
  proof -
    have leg: "legSamples (0 + j) n = (if j = 0 then [0 ..< Suc n] else [1 ..< Suc n])" for j
      by (simp add: legSamples_def)
    show ?thesis by (simp only: leg)
  qed
  from run len shape show ?thesis by (intro exI [of _ ?pts] conjI)
qed

lemmas chain_defs =
  chainState_def boundHotspot_def threeDotState_def edgeConfig_def exampleConfig_def
  exampleLine_def createDots_def makeDot_def initialState_def

theorem sequential_chain_point_count_witness:
  "2 \<le> length (hotspotData chainState) \<and> hotspotsBound chainState
   \<and> line_segments (connectionLine edgeConfig) = real 2 \<and> 1 \<le> (2::nat)
   \<and> (\<exists>points. collectHotspotArcPoints edgeConfig chainState = Inr points
          \<and> length points = 5)"
proof -
  have a: "2 \<le> length (hotspotData chainState)" by (simp add: chain_defs)
  have b: "hotspotsBound chainState" by (simp add: hotspotsBound_def chain_defs)
  have c: "line_segments (connectionLine edgeConfig) = real 2" by (simp add: chain_defs)
  have d: "1 \<le> (2::nat)" by simp
  from sequential_chain_point_count [OF a b c d]
  obtain points where "collectHotspotArcPoints edgeConfig chainState = Inr points"
    "length points = (2 + 1) + (length (hotspotData chainState) - 2) * 2" by blast
  moreover have "length (hotspotData chainState) = 3" by (simp add: chain_defs)
  ultimately have "collectHotspotArcPoints edgeConfig chainState = Inr points
          \<and> length points = 5" by simp
  then have "\<exists>points. collectHotspotArcPoints edgeConfig chainState = Inr points
          \<and> length points = 5" by (rule exI)
  with a b c d show ?thesis by (intro conjI)
qed

section \<open>Manual connection pairs\<close>

lemma findIndexFrom_bounds:
  "findIndexFrom P i xs = - 1
   \<or> (int i \<le> findIndexFrom P i xs \<and> findIndexFrom P i xs < int i + int (length xs))"
  by (induction xs arbitrary: i) (auto, force+)

lemma findIndexFrom_found:
  assumes "0 \<le> findIndexFrom P i xs"
  shows "nat (findIndexFrom P i xs) - i < length xs
     \<and> P (xs ! (nat (findIndexFrom P i xs) - i))
     \<and> (\<forall>k < nat (findIndexFrom P i xs) - i. \<not> P (xs ! k))"
  using assms
proof (induction xs arbitrary: i)
  case Nil
  then show ?case by simp
next
  case (Cons v vs)
  show ?case
  proof (cases "P v")
    case True
    then show ?thesis by simp
  next
    case False
    with Cons.prems have pos: "0 \<le> findIndexFrom P (Suc i) vs" by simp
    from findIndexFrom_bounds [of P "Suc i" vs] pos
    have ge: "int (Suc i) \<le> findIndexFrom P (Suc i) vs" by auto
    then have eq: "nat (findIndexFrom P (Suc i) vs) - i
                     = Suc (nat (findIndexFrom P (Suc i) vs) - Suc i)" by linarith
    from Cons.IH [OF pos] False show ?thesis
      by (simp add: eq less_Suc_eq_0_disj) auto
  qed
qed

lemma findIndexFrom_none:
  "(findIndexFrom P i xs < 0) = (\<forall>v \<in> set xs. \<not> P v)"
  by (induction xs arbitrary: i) auto

lemma findHotspotIndexById_found:
  "(0 \<le> findHotspotIndexById hsd ident)
     = (\<exists>i. ident = Some i \<and> i \<noteq> []
            \<and> list_ex (\<lambda>hs. toLowerCase (hs_id hs) = toLowerCase i) hsd)"
  using findIndexFrom_none [of _ 0 hsd]
  by (auto simp: findHotspotIndexById_def Let_def list_ex_iff not_less [symmetric]
           split: option.splits)

lemma findHotspotIndexById_index:
  assumes "0 \<le> findHotspotIndexById hsd (Some i)"
  shows "nat (findHotspotIndexById hsd (Some i)) < length hsd
     \<and> toLowerCase (hs_id (hsd ! nat (findHotspotIndexById hsd (Some i)))) = toLowerCase i
     \<and> (\<forall>k < nat (findHotspotIndexById hsd (Some i)).
           toLowerCase (hs_id (hsd ! k)) \<noteq> toLowerCase i)"
proof -
  from assms have ne: "i \<noteq> []" by (auto simp: findHotspotIndexById_def split: if_splits)
  with assms have
    "0 \<le> findIndexFrom (\<lambda>hs. toLowerCase (hs_id hs) = toLowerCase i) 0 hsd"
    by (simp add: findHotspotIndexById_def Let_def)
  from findIndexFrom_found [OF this] ne show ?thesis
    by (simp add: findHotspotIndexById_def Let_def)
qed

lemma findHotspotIndexById_lt:
  "0 \<le> findHotspotIndexById hsd ident \<Longrightarrow> nat (findHotspotIndexById hsd ident) < length hsd"
  using findHotspotIndexById_index [of hsd] by (cases ident) (auto simp: findHotspotIndexById_def)

lemma buildPair_dropped:
  "\<not> pairResolved (hotspotData s) pair \<Longrightarrow> buildPair c s pair = Inr None"
  by (auto simp: buildPair_def pairResolved_def Let_def)

lemma buildPair_built:
  assumes "hotspotsBound s" "pairResolved (hotspotData s) pair"
  shows "buildPair c s pair = Inr (Some (pairEntry c s pair))"
proof -
  let ?fi = "nat (findHotspotIndexById (hotspotData s) (fromId pair))"
  let ?ti = "nat (findHotspotIndexById (hotspotData s) (toId pair))"
  from assms(2) have f: "?fi < length (hotspotData s)" and t: "?ti < length (hotspotData s)"
    by (simp_all add: pairResolved_def findHotspotIndexById_lt)
  from assms(1) f t have
    "dotIndex (hotspotData s ! ?fi) < length (dotPositions s)"
    "dotIndex (hotspotData s ! ?ti) < length (dotPositions s)"
    by (simp_all add: hotspotsBound_def list_all_length)
  then have p:
    "getHotspotWorldPosition c (dotPositions s) (hotspotData s ! ?fi)
       = Inr (hotspotPos c (dotPositions s) (hotspotData s ! ?fi))"
    "getHotspotWorldPosition c (dotPositions s) (hotspotData s ! ?ti)
       = Inr (hotspotPos c (dotPositions s) (hotspotData s ! ?ti))"
    by (simp_all add: getHotspotWorldPosition_bound)
  from assms(2) have r: "\<not> (findHotspotIndexById (hotspotData s) (fromId pair) < 0
       \<or> findHotspotIndexById (hotspotData s) (toId pair) < 0)"
    by (auto simp: pairResolved_def)
  show ?thesis
    unfolding buildPair_def Let_def pairEntry_def using r p by simp
qed

lemma buildPairs_result:
  assumes "hotspotsBound s"
  shows "buildPairs c s pairs acc
     = Inr (acc @ map (pairEntry c s) (filter (pairResolved (hotspotData s)) pairs))"
proof (induction pairs arbitrary: acc)
  case Nil
  then show ?case by simp
next
  case (Cons pair pairs)
  show ?case
  proof (cases "pairResolved (hotspotData s) pair")
    case True
    from buildPair_built [OF assms True, of c] Cons.IH True show ?thesis by simp
  next
    case False
    from buildPair_dropped [OF False, of c] Cons.IH False show ?thesis by simp
  qed
qed

lemma mergePairCfg_style:
  "line_color (mergePairCfg b p) = nullish (pair_color p) (line_color b)"
  "line_opacity (mergePairCfg b p) = nullish (pair_opacity p) (line_opacity b)"
  "line_arcHeight (mergePairCfg b p) = nullish (pair_arcHeight p) (line_arcHeight b)"
  "line_segments (mergePairCfg b p) = nullish (pair_segments p) (line_segments b)"
  "line_thickness (mergePairCfg b p) = nullish (pair_thickness p) (line_thickness b)"
  "line_radialSegments (mergePairCfg b p)
     = nullish (pair_radialSegments p) (line_radialSegments b)"
  "line_heightOffset (mergePairCfg b p) = nullish (pair_heightOffset p) (line_heightOffset b)"
  by (simp_all add: mergePairCfg_def)

lemma toLowerCase_idem: "toLowerCase (toLowerCase str) = toLowerCase str"
proof -
  have "toLowerChar (toLowerChar ch) = toLowerChar ch" for ch
    by (auto simp: toLowerChar_def Let_def)
  then show ?thesis by (simp add: toLowerCase_def)
qed

lemma pairEntry_fields:
  "pl_cfg (pairEntry c s pair) = mergePairCfg (connectionLine c) pair"
  "pl_fromIndex (pairEntry c s pair) = nat (findHotspotIndexById (hotspotData s) (fromId pair))"
  "pl_toIndex (pairEntry c s pair) = nat (findHotspotIndexById (hotspotData s) (toId pair))"
  "mat_color (pl_mesh (pairEntry c s pair))
     = nullish (pair_color pair) (line_color (connectionLine c))"
  "mat_opacity (pl_mesh (pairEntry c s pair))
     = nullish (pair_opacity pair) (line_opacity (connectionLine c))"
  "tube_radius (pl_mesh (pairEntry c s pair))
     = max 0.001 (nullish (pair_thickness pair) (line_thickness (connectionLine c)))"
  "tube_radialSegments (pl_mesh (pairEntry c s pair))
     = max 3 \<lfloor>nullish (pair_radialSegments pair) (line_radialSegments (connectionLine c))\<rfloor>"
  "tube_points (pl_mesh (pairEntry c s pair))
     = map (arcPoint
              (hotspotPos c (dotPositions s) (hotspotData s ! pl_fromIndex (pairEntry c s pair)))
              (hotspotPos c (dotPositions s) (hotspotData s ! pl_toIndex (pairEntry c s pair)))
              (nullish (pair_arcHeight pair) (line_arcHeight (connectionLine c)))
              (nat (max 1 \<lfloor>nullish (pair_segments pair) (line_segments (connectionLine c))\<rfloor>)))
         [0 ..< Suc (nat (max 1 \<lfloor>nullish (pair_segments pair)
                                     (line_segments (connectionLine c))\<rfloor>))]"
  by (simp_all add: pairEntry_def Let_def buildArcTube_def collectArcPointsBetween_def
        segmentsOf_def mergePairCfg_style)

text \<open>
  A pair's \<open>heightOffset\<close> is merged into the stored style but never reaches the mesh:
  the endpoints are placed with the base style's offset.
\<close>

lemma pair_heightOffset_ignored:
  "pl_mesh (pairEntry c s (pair\<lparr> pair_heightOffset := v \<rparr>)) = pl_mesh (pairEntry c s pair)"
  by (simp add: pairEntry_def Let_def buildArcTube_def collectArcPointsBetween_def
        segmentsOf_def mergePairCfg_def)

text \<open>
  Claim C8, as the code has it. With connection lines enabled, the pair lines built are
  exactly the entries of the configured pairs that resolve, in order. A pair resolves when
  each of its ids is present, not empty, and equal to a hotspot's id after both are
  lower-cased. A pair that does not resolve is dropped without an error. The entry of a
  resolved pair joins two hotspots whose lower-cased ids are the pair's; its material and
  tube take colour, opacity, thickness, radial segments, arc height and segment count from
  the pair where the pair gives one and from the base style otherwise.
\<close>

theorem resolved_pairs_build_lines_when_enabled:
  assumes "enabled (connectionLine c)" "hotspotsBound s"
  shows "buildHotspotPairConnections c s
       = Inr (s\<lparr> hotspotPairLines :=
                  map (pairEntry c s)
                    (filter (pairResolved (hotspotData s)) (connectionPairs c)) \<rparr>)
   \<and> pairResolved (hotspotData s) pair =
       ((\<exists>a. fromId pair = Some a \<and> a \<noteq> []
            \<and> list_ex (\<lambda>hs. toLowerCase (hs_id hs) = toLowerCase a) (hotspotData s))
        \<and> (\<exists>b. toId pair = Some b \<and> b \<noteq> []
            \<and> list_ex (\<lambda>hs. toLowerCase (hs_id hs) = toLowerCase b) (hotspotData s)))
   \<and> (\<not> pairResolved (hotspotData s) pair \<longrightarrow> buildPair c s pair = Inr None)
   \<and> (pairResolved (hotspotData s) pair \<longrightarrow>
        buildPair c s pair = Inr (Some (pairEntry c s pair))
        \<and> pl_fromIndex (pairEntry c s pair) < length (hotspotData s)
        \<and> pl_toIndex (pairEntry c s pair) < length (hotspotData s)
        \<and> Some (toLowerCase (hs_id (hotspotData s ! pl_fromIndex (pairEntry c s pair))))
            = map_option toLowerCase (fromId pair)
        \<and> Some (toLowerCase (hs_id (hotspotData s ! pl_toIndex (pairEntry c s pair))))
            = map_option toLowerCase (toId pair)
        \<and> mat_color (pl_mesh (pairEntry c s pair))
            = nullish (pair_color pair) (line_color (connectionLine c))
        \<and> mat_opacity (pl_mesh (pairEntry c s pair))
            = nullish (pair_opacity pair) (line_opacity (connectionLine c))
        \<and> tube_radius (pl_mesh (pairEntry c s pair))
            = max 0.001 (nullish (pair_thickness pair) (line_thickness (connectionLine c)))
        \<and> tube_radialSegments (pl_mesh (pairEntry c s pair))
            = max 3 \<lfloor>nullish (pair_radialSegments pair)
                       (line_radialSegments (connectionLine c))\<rfloor>
        \<and> tube_points (pl_mesh (pairEntry c s pair))
            = map (arcPoint
                     (hotspotPos c (dotPositions s)
                        (hotspotData s ! pl_fromIndex (pairEntry c s pair)))
                     (hotspotPos c (dotPositions s)
                        (hotspotData s ! pl_toIndex (pairEntry c s pair)))
                     (nullish (pair_arcHeight pair) (line_arcHeight (connectionLine c)))
                     (nat (max 1 \<lfloor>nullish (pair_segments pair)
                                     (line_segments (connectionLine c))\<rfloor>)))
                [0 ..< Suc (nat (max 1 \<lfloor>nullish (pair_segments pair)
                                            (line_segments (connectionLine c))\<rfloor>))])"
proof (intro conjI impI)
  show "buildHotspotPairConnections c s
       = Inr (s\<lparr> hotspotPairLines :=
                  map (pairEntry c s)
                    (filter (pairResolved (hotspotData s)) (connectionPairs c)) \<rparr>)"
    using assms(1) buildPairs_result [OF assms(2), of c "connectionPairs c" "[]"]
    by (simp add: buildHotspotPairConnections_def)
  show "pairResolved (hotspotData s) pair =
       ((\<exists>a. fromId pair = Some a \<and> a \<noteq> []
            \<and> list_ex (\<lambda>hs. toLowerCase (hs_id hs) = toLowerCase a) (hotspotData s))
        \<and> (\<exists>b. toId pair = Some b \<and> b \<noteq> []
            \<and> list_ex (\<lambda>hs. toLowerCase (hs_id hs) = toLowerCase b) (hotspotData s)))"
    by (simp only: pairResolved_def findHotspotIndexById_found)
next
  assume "\<not> pairResolved (hotspotData s) pair"
  then show "buildPair c s pair = Inr None" by (rule buildPair_dropped)
next
  assume r: "pairResolved (hotspotData s) pair"
  show "buildPair c s pair = Inr (Some (pairEntry c s pair))"
    by (rule buildPair_built [OF assms(2) r])
  from r have f: "0 \<le> findHotspotIndexById (hotspotData s) (fromId pair)"
    and t: "0 \<le> findHotspotIndexById (hotspotData s) (toId pair)"
    by (simp_all add: pairResolved_def)
  show "pl_fromIndex (pairEntry c s pair) < length (hotspotData s)"
    using f by (simp add: pairEntry_fields findHotspotIndexById_lt)
  show "pl_toIndex (pairEntry c s pair) < length (hotspotData s)"
    using t by (simp add: pairEntry_fields findHotspotIndexById_lt)
  from f obtain a where a: "fromId pair = Some a"
    by (auto simp: findHotspotIndexById_found)
  from t obtain b where b: "toId pair = Some b"
    by (auto simp: findHotspotIndexById_found)
  show "Some (toLowerCase (hs_id (hotspotData s ! pl_fromIndex (pairEntry c s pair))))
            = map_option toLowerCase (fromId pair)"
    using findHotspotIndexById_index [of "hotspotData s" a] f a
    by (simp add: pairEntry_fields)
  show "Some (toLowerCase (hs_id (hotspotData s ! pl_toIndex (pairEntry c s pair))))
            = map_option toLowerCase (toId pair)"
    using findHotspotIndexById_index [of "hotspotData s" b] t b
    by (simp add: pairEntry_fields)
qed (rule pairEntry_fields)+

lemmas pairs_defs =
  pairsConfig_def pairsOffConfig_def examplePair_def

lemma toLowerCase_examples:
  "toLowerCase ''SG-1'' = ''sg-1''" "toLowerCase ''sg-1'' = ''sg-1''"
  "toLowerCase ''kl-2'' = ''kl-2''" "toLowerCase ''Bkk-3'' = ''bkk-3''"
  "toLowerCase ''BKK-3'' = ''bkk-3''" "toLowerCase ''nowhere'' = ''nowhere''"
  by code_simp+

lemma chain_lookups:
  "findHotspotIndexById (hotspotData chainState) (Some ''sg-1'') = 0"
  "findHotspotIndexById (hotspotData chainState) (Some ''BKK-3'') = 2"
  "findHotspotIndexById (hotspotData chainState) (Some ''nowhere'') = - 1"
  by (simp_all add: findHotspotIndexById_def Let_def chainState_def boundHotspot_def
        toLowerCase_examples)

lemma chain_resolved:
  "pairResolved (hotspotData chainState) (examplePair ''sg-1'' ''BKK-3'')"
  "\<not> pairResolved (hotspotData chainState) (examplePair ''sg-1'' ''nowhere'')"
  by (simp_all add: pairResolved_def examplePair_def chain_lookups)

lemma chain_bound: "hotspotsBound chainState"
  by (simp add: hotspotsBound_def chain_defs)

text \<open>
  Claim C8 as stated fails when connection lines are switched off: the first configured
  pair resolves, and no line is built for it.
\<close>

theorem pairs_disabled_counterexample:
  "hotspotsBound chainState
   \<and> pairResolved (hotspotData chainState) (examplePair ''sg-1'' ''BKK-3'')
   \<and> connectionPairs pairsOffConfig
       = [examplePair ''sg-1'' ''BKK-3'', examplePair ''sg-1'' ''nowhere'']
   \<and> buildHotspotPairConnections pairsOffConfig chainState
       = Inr (chainState\<lparr> hotspotPairLines := [] \<rparr>)"
proof -
  have "connectionPairs pairsOffConfig
       = [examplePair ''sg-1'' ''BKK-3'', examplePair ''sg-1'' ''nowhere'']"
    by (simp add: pairsOffConfig_def pairsConfig_def)
  moreover have "buildHotspotPairConnections pairsOffConfig chainState
       = Inr (chainState\<lparr> hotspotPairLines := [] \<rparr>)"
    by (simp add: buildHotspotPairConnections_def pairsOffConfig_def)
  ultimately show ?thesis using chain_bound chain_resolved(1) by (intro conjI)
qed

theorem resolved_pairs_build_lines_when_enabled_witness:
  "enabled (connectionLine pairsConfig) \<and> hotspotsBound chainState
   \<and> pairResolved (hotspotData chainState) (examplePair ''sg-1'' ''BKK-3'')
   \<and> \<not> pairResolved (hotspotData chainState) (examplePair ''sg-1'' ''nowhere'')
   \<and> buildHotspotPairConnections pairsConfig chainState
       = Inr (chainState\<lparr> hotspotPairLines :=
                [pairEntry pairsConfig chainState (examplePair ''sg-1'' ''BKK-3'')] \<rparr>)
   \<and> buildPair pairsConfig chainState (examplePair ''sg-1'' ''nowhere'') = Inr None
   \<and> pl_fromIndex (pairEntry pairsConfig chainState (examplePair ''sg-1'' ''BKK-3'')) = 0
   \<and> pl_toIndex (pairEntry pairsConfig chainState (examplePair ''sg-1'' ''BKK-3'')) = 2
   \<and> mat_color (pl_mesh (pairEntry pairsConfig chainState (examplePair ''sg-1'' ''BKK-3'')))
       = 255
   \<and> mat_opacity (pl_mesh (pairEntry pairsConfig chainState (examplePair ''sg-1'' ''BKK-3'')))
       = 1
   \<and> length (tube_points
               (pl_mesh (pairEntry pairsConfig chainState (examplePair ''sg-1'' ''BKK-3''))))
       = 5"
proof -
  have e: "enabled (connectionLine pairsConfig)"
    by (simp add: pairsConfig_def edgeConfig_def exampleConfig_def exampleLine_def)
  have ps: "connectionPairs pairsConfig
       = [examplePair ''sg-1'' ''BKK-3'', examplePair ''sg-1'' ''nowhere'']"
    by (simp add: pairsConfig_def)
  have base: "line_color (connectionLine pairsConfig) = 0"
    "line_opacity (connectionLine pairsConfig) = 1"
    by (simp_all add: pairsConfig_def edgeConfig_def exampleConfig_def exampleLine_def)
  note t1 = resolved_pairs_build_lines_when_enabled
              [OF e chain_bound, where pair = "examplePair ''sg-1'' ''BKK-3''"]
  note t2 = resolved_pairs_build_lines_when_enabled
              [OF e chain_bound, where pair = "examplePair ''sg-1'' ''nowhere''"]
  have run: "buildHotspotPairConnections pairsConfig chainState
       = Inr (chainState\<lparr> hotspotPairLines :=
                [pairEntry pairsConfig chainState (examplePair ''sg-1'' ''BKK-3'')] \<rparr>)"
    using t1 by (simp add: ps chain_resolved)
  have dropped: "buildPair pairsConfig chainState (examplePair ''sg-1'' ''nowhere'') = Inr None"
    using t2 chain_resolved(2) by blast
  have idx: "pl_fromIndex (pairEntry pairsConfig chainState (examplePair ''sg-1'' ''BKK-3'')) = 0"
    "pl_toIndex (pairEntry pairsConfig chainState (examplePair ''sg-1'' ''BKK-3'')) = 2"
    by (simp_all add: pairEntry_fields examplePair_def chain_lookups)
  from t1 chain_resolved(1) have
    col: "mat_color (pl_mesh (pairEntry pairsConfig chainState (examplePair ''sg-1'' ''BKK-3'')))
       = nullish (pair_color (examplePair ''sg-1'' ''BKK-3'')) (line_color (connectionLine pairsConfig))"
    and opa: "mat_opacity (pl_mesh (pairEntry pairsConfig chainState (examplePair ''sg-1'' ''BKK-3'')))
       = nullish (pair_opacity (examplePair ''sg-1'' ''BKK-3'')) (line_opacity (connectionLine pairsConfig))"
    by blast+
  have c255: "mat_color (pl_mesh (pairEntry pairsConfig chainState (examplePair ''sg-1'' ''BKK-3'')))
       = 255"
    unfolding col by (simp add: examplePair_def nullish_def)
  have o1: "mat_opacity (pl_mesh (pairEntry pairsConfig chainState (examplePair ''sg-1'' ''BKK-3'')))
       = 1"
    unfolding opa by (simp add: examplePair_def nullish_def base)
  have len: "length (tube_points
               (pl_mesh (pairEntry pairsConfig chainState (examplePair ''sg-1'' ''BKK-3''))))
       = 5"
    by (simp add: pairEntry_fields(8) examplePair_def nullish_def)
  from e chain_bound chain_resolved run dropped idx c255 o1 len show ?thesis
    by (intro conjI)
qed

section \<open>Binding on an empty dot list\<close>

lemma bindHotspot_no_dots:
  "dotPositions s = [] \<Longrightarrow> bindHotspot c ty hh i hs s = Inl TypeError"
  by (simp add: bindHotspot_def Let_def split: prod.splits)

lemma buildDotsFromFile_no_dots:
  assumes "HOTSPOTS \<noteq> []"
  shows "buildDotsFromFile c [] HOTSPOTS initialState = Inl TypeError"
proof -
  from assms obtain h rest where hs: "HOTSPOTS = h # rest" by (cases HOTSPOTS) auto
  have e: "dotPositions (createDots c [] initialState) = []"
    by (simp add: createDots_def initialState_def)
  show ?thesis
    unfolding buildDotsFromFile_def Let_def hs
    by (simp add: bindHotspot_no_dots [OF e])
qed

text \<open>
  Claim C1 against the code. With an empty dot list and one hotspot, the scan leaves
  \<open>bestIndex = -1\<close>, the write to \<open>dotPositions[-1].isHotspot\<close> raises, and
  \<^verbatim>\<open>buildDotsFromFile\<close> ends there: the hotspot is not skipped, no other hotspot is
  bound and neither line builder runs. With one dot the same hotspot is bound and the
  build runs to its end.
\<close>

theorem empty_dot_list_aborts_build:
  "buildDotsFromFile exampleConfig [] [exampleHotspot] initialState = Inl TypeError
   \<and> map_sum id (\<lambda>s. map dotIndex (hotspotData s))
        (buildDotsFromFile exampleConfig [(0, 0)] [exampleHotspot] initialState) = Inr [0]"
proof -
  have a: "buildDotsFromFile exampleConfig [] [exampleHotspot] initialState = Inl TypeError"
    by (rule buildDotsFromFile_no_dots) simp
  have b: "map_sum id (\<lambda>s. map dotIndex (hotspotData s))
        (buildDotsFromFile exampleConfig [(0, 0)] [exampleHotspot] initialState) = Inr [0]"
    by (simp add: buildDotsFromFile_def Let_def createDots_def initialState_def makeDot_def
          bindHotspot_def latLonToMapXY_def exampleHotspot_def
          buildHotspotConnectionLine_def isSequentialConnectionEnabled_def
          buildHotspotPairConnections_def exampleConfig_def exampleLine_def nullish_def)
  from a b show ?thesis ..
qed

section \<open>Binding leaves every hotspot on a dot\<close>

text \<open>
  The hypothesis of the results on connection lines, that every bound hotspot names a
  dot, holds after \<^verbatim>\<open>buildDotsFromFile\<close> and is kept by every frame.
\<close>

lemma bindHotspot_bound:
  assumes "hotspotsBound s" "bindHotspot c ty hh i hs s = Inr s'"
  shows "hotspotsBound s' \<and> length (dotPositions s') = length (dotPositions s)
     \<and> length (hotspotData s') = Suc (length (hotspotData s))"
  using assms
  by (auto simp: bindHotspot_def Let_def hotspotsBound_def split: prod.splits if_splits)

lemma bindGroup_bound:
  assumes "hotspotsBound s" "bindGroup c ty hh i hss s = Inr s'"
  shows "hotspotsBound s' \<and> length (hotspotData s') = length (hotspotData s) + length hss"
  using assms
proof (induction hss arbitrary: s i)
  case Nil
  then show ?case by simp
next
  case (Cons h hss)
  from Cons.prems(2) obtain s1 where s1: "bindHotspot c ty hh i h s = Inr s1"
    "bindGroup c ty hh (Suc i) hss s1 = Inr s'" by (auto split: sum.splits)
  from bindHotspot_bound [OF Cons.prems(1) s1(1)] Cons.IH [OF _ s1(2)]
  show ?case by simp
qed

lemma bindGroups_bound:
  assumes "hotspotsBound s" "bindGroups c hh H types s = Inr s'"
  shows "hotspotsBound s'"
  using assms
proof (induction types arbitrary: s)
  case Nil
  then show ?case by simp
next
  case (Cons ty types)
  from Cons.prems(2) obtain s1 where s1:
    "bindGroup c ty hh 0 (filter (\<lambda>h. hs_type h = ty) H) s = Inr s1"
    "bindGroups c hh H types s1 = Inr s'" by (auto split: sum.splits)
  from bindGroup_bound [OF Cons.prems(1) s1(1)] have "hotspotsBound s1" by simp
  then show ?case using s1(2) by (rule Cons.IH)
qed

lemma buildDotsFromFile_bound:
  assumes "buildDotsFromFile c dots H initialState = Inr s"
  shows "hotspotsBound s"
proof -
  have b0: "hotspotsBound (createDots c dots initialState)"
    by (simp add: hotspotsBound_def createDots_def initialState_def)
  from assms obtain s2 s3 where
    s2: "bindGroups c (snd (buildHotspotGeometryFromLayout (layout c))) H (groupTypes H)
           (createDots c dots initialState) = Inr s2"
    and s3: "buildHotspotConnectionLine c s2 = Inr s3"
    and s: "buildHotspotPairConnections c s3 = Inr s"
    by (auto simp: buildDotsFromFile_def Let_def split: sum.splits)
  from bindGroups_bound [OF b0 s2] have b2: "hotspotsBound s2" .
  from s3 b2 have b3: "hotspotsBound s3"
    by (auto simp: buildHotspotConnectionLine_def hotspotsBound_def split: if_splits sum.splits)
  from s b3 show ?thesis
    by (auto simp: buildHotspotPairConnections_def hotspotsBound_def split: if_splits sum.splits)
qed

lemma animate_bound:
  assumes "hotspotsBound s" "animate c hit s = Inr s'"
  shows "hotspotsBound s'"
proof -
  from assms(2) obtain s1 where s1: "handleHover c hit s = Inr s1"
    and s': "s' = smoothLiftUpdate c s1"
    by (auto simp: animate_def split: sum.splits)
  from s1 assms(1) have b1: "hotspotsBound s1"
    by (auto simp: handleHover_def Let_def hotspotsBound_def split: option.splits if_splits)
  have "length (dotPositions (smoothLiftUpdate c s1)) = length (dotPositions s1)"
    by (cases "engineRuns s1") (simp_all add: smoothLiftUpdate_dots smoothLiftUpdate_idle)
  moreover have "hotspotData (smoothLiftUpdate c s1) = hotspotData s1"
    by (simp add: smoothLiftUpdate_def Let_def case_prod_beta)
  ultimately show ?thesis using b1 s' by (simp add: hotspotsBound_def)
qed

end
